theory Spec2Isabelle
  imports Main
begin

section \<open>Harfbuzz input generation (nototools/hb_input.py)\<close>

text \<open>
  The module derives, for a glyph of a font, a pair \<open>(features, text)\<close> that makes a
  shaping engine produce that glyph. This theory embeds the class
  \<^verbatim>\<open>HbInputGenerator\<close> and \<^verbatim>\<open>build_reverse_cmap\<close>.
\<close>

subsection \<open>Data model\<close>

text \<open>
  Glyphs are named by strings. A Python 2 \<^verbatim>\<open>unicode\<close> string is the list of its code
  points; feature tags are collected in a tuple, taken here by its value (a later
  subsection has the tags as an object of a store).
\<close>

type_synonym glyph = string
type_synonym codepoint = nat
type_synonym unicode = "codepoint list"
type_synonym features = "string list"

text \<open>
  Modelled from the spec: the classes of the font tables (fontTools' otTables) are not
  part of the module. Their shape is the one of the data model: a ligature record holds
  the ligature glyph and the remaining components; a chaining contextual subtable holds
  its substitution records and its backtrack and lookahead coverages; a lookup is a
  tagged variant over its lookup type, the subtables having the shape that the type
  selects. The source tests \<^verbatim>\<open>lookup.LookupType\<close> against 1, 4 and 6; here that test is
  the case distinction on the constructor. A dictionary read with \<^verbatim>\<open>.items()\<close> is the
  list of its items in iteration order.
\<close>

record ligature =
  LigGlyph :: glyph
  Component :: "glyph list"

record coverage =
  glyphs :: "glyph list"

record subst_lookup_record =
  SequenceIndex :: nat
  LookupListIndex :: nat

record chain_context_subst =
  BacktrackCoverage :: "coverage list"
  LookAheadCoverage :: "coverage list"
  SubstLookupRecord :: "subst_lookup_record list"

datatype lookup =
    SingleSubst "(glyph \<times> glyph) list list"
  | LigatureSubst "(glyph \<times> ligature list) list list"
  | ChainContextSubst "chain_context_subst list"
  | OtherLookup

record feature_record =
  FeatureTag :: string
  FeatureLookupListIndex :: "nat list"

record gsub =
  FeatureList :: "feature_record list"
  LookupList :: "lookup list option"

text \<open>
  The font, as far as the module reads it: the glyph order, the advance width of each
  glyph of the glyph set, the items of the dictionary that
  \<^verbatim>\<open>summary.get_largest_cmap(font)\<close> returns (code point, glyph name), and the GSUB table
  when the font has one.
\<close>

record font =
  getGlyphOrder :: "glyph list"
  getGlyphSet :: "glyph \<rightharpoonup> int"
  get_largest_cmap :: "(codepoint \<times> glyph) list"
  GSUB :: "gsub option"

record HbInputGenerator =
  font :: font
  reverse_cmap :: "glyph \<rightharpoonup> codepoint"

text \<open>
  Every exception the code can raise is a value. The recursion of the resolver is
  bounded by the interpreter's recursion limit; running into it is an error too.
\<close>

datatype error =
    LookupIndexNotFound nat
  | UnichrOutOfRange codepoint
  | NoneNotIterable
  | NoneHasNoAttribute
  | IndexError
  | KeyError glyph
  | RecursionDepthExceeded

type_synonym hb_input = "features \<times> unicode"

subsection \<open>The reverse character map\<close>

text \<open>
  \<^verbatim>\<open>{n: v for v, n in summary.get_largest_cmap(font).items()}\<close>: the items are
  entered in iteration order, a later item overwriting an earlier one for the same name.
\<close>

definition build_reverse_cmap :: "font \<Rightarrow> (glyph \<rightharpoonup> codepoint)" where
  "build_reverse_cmap f = fold (\<lambda>(v, n) m. m(n \<mapsto> v)) (get_largest_cmap f) Map.empty"

definition init :: "font \<Rightarrow> HbInputGenerator" where
  "init f = \<lparr>font = f, reverse_cmap = build_reverse_cmap f\<rparr>"

text \<open>
  \<^verbatim>\<open>unichr\<close> raises ValueError outside the range of the interpreter (here the
  range of a build with 4-byte characters).
\<close>

definition maxunicode :: codepoint where
  "maxunicode = 0x10FFFF"

definition unichr :: "codepoint \<Rightarrow> error + unicode" where
  "unichr cp = (if cp \<le> maxunicode then Inr [cp] else Inl (UnichrOutOfRange cp))"

subsection \<open>Searching the lookups for a rule that emits a glyph\<close>

text \<open>
  Each loop of \<^verbatim>\<open>input_from_name\<close> returns at its first match with the value of one
  nested call. The loops are the searches below; they yield the arguments of that call.
\<close>

datatype rule =
    SingleRule glyph nat
  | LigatureRule "glyph list"

fun mapping_items :: "(glyph \<times> glyph) list \<Rightarrow> glyph \<Rightarrow> glyph option" where
  "mapping_items [] name = None"
| "mapping_items ((g, subst) # rest) name =
     (if subst = name then Some g else mapping_items rest name)"

fun single_subtables :: "(glyph \<times> glyph) list list \<Rightarrow> glyph \<Rightarrow> glyph option" where
  "single_subtables [] name = None"
| "single_subtables (st # rest) name =
     (case mapping_items st name of
        Some g \<Rightarrow> Some g
      | None \<Rightarrow> single_subtables rest name)"

fun ligature_records :: "ligature list \<Rightarrow> glyph \<Rightarrow> ligature option" where
  "ligature_records [] name = None"
| "ligature_records (lig # rest) name =
     (if LigGlyph lig = name then Some lig else ligature_records rest name)"

fun ligatures_items :: "(glyph \<times> ligature list) list \<Rightarrow> glyph \<Rightarrow> glyph list option" where
  "ligatures_items [] name = None"
| "ligatures_items ((prefix, ligs) # rest) name =
     (case ligature_records ligs name of
        Some lig \<Rightarrow> Some ([prefix] @ Component lig)
      | None \<Rightarrow> ligatures_items rest name)"

fun ligature_subtables :: "(glyph \<times> ligature list) list list \<Rightarrow> glyph \<Rightarrow> glyph list option" where
  "ligature_subtables [] name = None"
| "ligature_subtables (st # rest) name =
     (case ligatures_items st name of
        Some gs \<Rightarrow> Some gs
      | None \<Rightarrow> ligature_subtables rest name)"

fun lookup_loop :: "nat \<Rightarrow> lookup list \<Rightarrow> glyph \<Rightarrow> rule option" where
  "lookup_loop lookup_index [] name = None"
| "lookup_loop lookup_index (SingleSubst sts # rest) name =
     (case single_subtables sts name of
        Some g \<Rightarrow> Some (SingleRule g lookup_index)
      | None \<Rightarrow> lookup_loop (Suc lookup_index) rest name)"
| "lookup_loop lookup_index (LigatureSubst sts # rest) name =
     (case ligature_subtables sts name of
        Some gs \<Rightarrow> Some (LigatureRule gs)
      | None \<Rightarrow> lookup_loop (Suc lookup_index) rest name)"
| "lookup_loop lookup_index (_ # rest) name = lookup_loop (Suc lookup_index) rest name"

subsection \<open>Searching for what activates a lookup\<close>

fun feature_loop :: "feature_record list \<Rightarrow> nat \<Rightarrow> string option" where
  "feature_loop [] lookup_index = None"
| "feature_loop (feature # rest) lookup_index =
     (if lookup_index \<in> set (FeatureLookupListIndex feature) then Some (FeatureTag feature)
      else feature_loop rest lookup_index)"

text \<open>
  The innermost loop of the search for a chaining substitution. A record that targets
  the lookup yields the two glyphs to resolve; \<^verbatim>\<open>.glyphs[0]\<close> of an empty coverage
  raises IndexError.
\<close>

fun sub_lookup_loop ::
  "chain_context_subst \<Rightarrow> subst_lookup_record list \<Rightarrow> glyph \<Rightarrow> nat \<Rightarrow> error + glyph list option"
where
  "sub_lookup_loop st [] g lookup_index = Inr None"
| "sub_lookup_loop st (sub_lookup # rest) g lookup_index =
     (if LookupListIndex sub_lookup \<noteq> lookup_index then sub_lookup_loop st rest g lookup_index
      else if LookAheadCoverage st \<noteq> [] then
        (case glyphs (hd (LookAheadCoverage st)) of
           [] \<Rightarrow> Inl IndexError
         | x # _ \<Rightarrow> Inr (Some [g, x]))
      else if BacktrackCoverage st \<noteq> [] then
        (case glyphs (hd (BacktrackCoverage st)) of
           [] \<Rightarrow> Inl IndexError
         | x # _ \<Rightarrow> Inr (Some [x, g]))
      else sub_lookup_loop st rest g lookup_index)"

fun chain_subtables ::
  "chain_context_subst list \<Rightarrow> glyph \<Rightarrow> nat \<Rightarrow> error + glyph list option"
where
  "chain_subtables [] g lookup_index = Inr None"
| "chain_subtables (st # rest) g lookup_index =
     (case sub_lookup_loop st (SubstLookupRecord st) g lookup_index of
        Inl e \<Rightarrow> Inl e
      | Inr (Some gs) \<Rightarrow> Inr (Some gs)
      | Inr None \<Rightarrow> chain_subtables rest g lookup_index)"

fun chain_lookups :: "lookup list \<Rightarrow> glyph \<Rightarrow> nat \<Rightarrow> error + glyph list option" where
  "chain_lookups [] g lookup_index = Inr None"
| "chain_lookups (ChainContextSubst sts # rest) g lookup_index =
     (case chain_subtables sts g lookup_index of
        Inl e \<Rightarrow> Inl e
      | Inr (Some gs) \<Rightarrow> Inr (Some gs)
      | Inr None \<Rightarrow> chain_lookups rest g lookup_index)"
| "chain_lookups (_ # rest) g lookup_index = chain_lookups rest g lookup_index"

subsection \<open>The resolver\<close>

text \<open>
  The loop of \<^verbatim>\<open>_sequence_from_glyph_names\<close>, over the function that resolves one
  glyph: unpacking \<^verbatim>\<open>None\<close> into \<^verbatim>\<open>features, cur_text\<close> raises TypeError.
\<close>

fun sequence_loop ::
  "(glyph \<Rightarrow> features \<Rightarrow> error + hb_input option) \<Rightarrow> glyph list \<Rightarrow> features \<Rightarrow> unicode list
     \<Rightarrow> error + hb_input option"
where
  "sequence_loop resolve [] fs text = Inr (Some (fs, concat text))"
| "sequence_loop resolve (g # rest) fs text =
     (case resolve g fs of
        Inl e \<Rightarrow> Inl e
      | Inr None \<Rightarrow> Inl NoneNotIterable
      | Inr (Some (fs', cur_text)) \<Rightarrow> sequence_loop resolve rest fs' (text @ [cur_text]))"

text \<open>
  The three methods call each other. The first argument is the number of nested calls
  the interpreter still allows; a call made when none is left raises.
\<close>

fun input_from_name ::
      "nat \<Rightarrow> HbInputGenerator \<Rightarrow> glyph \<Rightarrow> features \<Rightarrow> bool \<Rightarrow> error + hb_input option"
  and input_with_context ::
      "nat \<Rightarrow> HbInputGenerator \<Rightarrow> gsub \<Rightarrow> glyph \<Rightarrow> nat \<Rightarrow> features \<Rightarrow> error + hb_input option"
  and sequence_from_glyph_names ::
      "nat \<Rightarrow> HbInputGenerator \<Rightarrow> glyph list \<Rightarrow> features \<Rightarrow> error + hb_input option"
where
  "input_from_name 0 self name fs pad = Inl RecursionDepthExceeded"
| "input_from_name (Suc n) self name fs pad =
     (case reverse_cmap self name of
        Some cp \<Rightarrow>
          (case unichr cp of
             Inl e \<Rightarrow> Inl e
           | Inr text \<Rightarrow> Inr (Some (fs, if pad then [32, 32] @ text else text)))
      | None \<Rightarrow>
          (case GSUB (font self) of
             None \<Rightarrow> Inr None
           | Some table \<Rightarrow>
               (case LookupList table of
                  None \<Rightarrow> Inr None
                | Some lookups \<Rightarrow>
                    (case lookup_loop 0 lookups name of
                       None \<Rightarrow> Inr None
                     | Some (SingleRule g lookup_index) \<Rightarrow>
                         input_with_context n self table g lookup_index fs
                     | Some (LigatureRule gs) \<Rightarrow>
                         sequence_from_glyph_names n self gs fs))))"
| "input_with_context 0 self table g lookup_index fs = Inl RecursionDepthExceeded"
| "input_with_context (Suc n) self table g lookup_index fs =
     (case feature_loop (FeatureList table) lookup_index of
        Some tag \<Rightarrow> input_from_name n self g (fs @ [tag]) False
      | None \<Rightarrow>
          (case LookupList table of
             None \<Rightarrow> Inl NoneHasNoAttribute
           | Some lookups \<Rightarrow>
               (case chain_lookups lookups g lookup_index of
                  Inl e \<Rightarrow> Inl e
                | Inr (Some gs) \<Rightarrow> sequence_from_glyph_names n self gs fs
                | Inr None \<Rightarrow> Inl (LookupIndexNotFound lookup_index))))"
| "sequence_from_glyph_names 0 self gs fs = Inl RecursionDepthExceeded"
| "sequence_from_glyph_names (Suc n) self gs fs =
     sequence_loop (\<lambda>g fs'. input_from_name n self g fs' False) gs fs []"

subsection \<open>The batch driver\<close>

text \<open>
  \<^verbatim>\<open>all_inputs\<close> returns the inputs of the glyphs that resolve; the first component
  of the result holds the lines it printed.
\<close>

fun all_inputs_loop ::
  "nat \<Rightarrow> HbInputGenerator \<Rightarrow> bool \<Rightarrow> glyph list \<Rightarrow> hb_input list \<Rightarrow> string list
     \<Rightarrow> string list \<times> (error + hb_input list)"
where
  "all_inputs_loop n self warn [] inputs out = (out, Inr inputs)"
| "all_inputs_loop n self warn (name # rest) inputs out =
     (case getGlyphSet (font self) name of
        None \<Rightarrow> (out, Inl (KeyError name))
      | Some width \<Rightarrow>
          (case input_from_name n self name [] (width = 0) of
             Inl e \<Rightarrow> (out, Inl e)
           | Inr (Some cur_input) \<Rightarrow> all_inputs_loop n self warn rest (inputs @ [cur_input]) out
           | Inr None \<Rightarrow>
               all_inputs_loop n self warn rest inputs
                 (if warn then out @ [''not tested (unreachable?): '' @ name] else out)))"

definition all_inputs ::
  "nat \<Rightarrow> HbInputGenerator \<Rightarrow> bool \<Rightarrow> string list \<times> (error + hb_input list)"
where
  "all_inputs n self warn = all_inputs_loop n self warn (getGlyphOrder (font self)) [] []"

subsection \<open>The resolver over a store\<close>

text \<open>
  The functions above take the feature tags as the value of a tuple, which is what the
  default \<^verbatim>\<open>features=()\<close> and every call inside the module pass. A caller may pass a
  list instead, and a list is an object: \<^verbatim>\<open>features += (feature.FeatureTag,)\<close> builds
  a new tuple from a tuple, and extends a list in place. To speak about what the
  resolver mutates, the three methods are given again over a store of list objects: the
  features are a tuple value or a reference to a list, and every function returns the
  store it leaves with its result, also when it raises.
\<close>

datatype pyseq = Tuple "string list" | ListRef nat

type_synonym store = "nat \<Rightarrow> string list"

fun tags_of :: "pyseq \<Rightarrow> store \<Rightarrow> string list" where
  "tags_of (Tuple ts) h = ts"
| "tags_of (ListRef a) h = h a"

fun iadd :: "pyseq \<Rightarrow> string \<Rightarrow> store \<Rightarrow> pyseq \<times> store" where
  "iadd (Tuple ts) tag h = (Tuple (ts @ [tag]), h)"
| "iadd (ListRef a) tag h = (ListRef a, h(a := h a @ [tag]))"

type_synonym hb_input_st = "pyseq \<times> unicode"

fun sequence_loop_st ::
  "(glyph \<Rightarrow> pyseq \<Rightarrow> store \<Rightarrow> (error + hb_input_st option) \<times> store) \<Rightarrow> glyph list \<Rightarrow> pyseq
     \<Rightarrow> unicode list \<Rightarrow> store \<Rightarrow> (error + hb_input_st option) \<times> store"
where
  "sequence_loop_st resolve [] fs acc h = (Inr (Some (fs, concat acc)), h)"
| "sequence_loop_st resolve (g # rest) fs acc h =
     (case resolve g fs h of
        (Inl e, h') \<Rightarrow> (Inl e, h')
      | (Inr None, h') \<Rightarrow> (Inl NoneNotIterable, h')
      | (Inr (Some (fs', cur_text)), h') \<Rightarrow>
          sequence_loop_st resolve rest fs' (acc @ [cur_text]) h')"

fun input_from_name_st ::
      "nat \<Rightarrow> HbInputGenerator \<Rightarrow> glyph \<Rightarrow> pyseq \<Rightarrow> bool \<Rightarrow> store
         \<Rightarrow> (error + hb_input_st option) \<times> store"
  and input_with_context_st ::
      "nat \<Rightarrow> HbInputGenerator \<Rightarrow> gsub \<Rightarrow> glyph \<Rightarrow> nat \<Rightarrow> pyseq \<Rightarrow> store
         \<Rightarrow> (error + hb_input_st option) \<times> store"
  and sequence_from_glyph_names_st ::
      "nat \<Rightarrow> HbInputGenerator \<Rightarrow> glyph list \<Rightarrow> pyseq \<Rightarrow> store
         \<Rightarrow> (error + hb_input_st option) \<times> store"
where
  "input_from_name_st 0 self name fs pad h = (Inl RecursionDepthExceeded, h)"
| "input_from_name_st (Suc n) self name fs pad h =
     (case reverse_cmap self name of
        Some cp \<Rightarrow>
          (case unichr cp of
             Inl e \<Rightarrow> (Inl e, h)
           | Inr text \<Rightarrow> (Inr (Some (fs, if pad then [32, 32] @ text else text)), h))
      | None \<Rightarrow>
          (case GSUB (font self) of
             None \<Rightarrow> (Inr None, h)
           | Some table \<Rightarrow>
               (case LookupList table of
                  None \<Rightarrow> (Inr None, h)
                | Some lookups \<Rightarrow>
                    (case lookup_loop 0 lookups name of
                       None \<Rightarrow> (Inr None, h)
                     | Some (SingleRule g lookup_index) \<Rightarrow>
                         input_with_context_st n self table g lookup_index fs h
                     | Some (LigatureRule gs) \<Rightarrow>
                         sequence_from_glyph_names_st n self gs fs h))))"
| "input_with_context_st 0 self table g lookup_index fs h = (Inl RecursionDepthExceeded, h)"
| "input_with_context_st (Suc n) self table g lookup_index fs h =
     (case feature_loop (FeatureList table) lookup_index of
        Some tag \<Rightarrow>
          (case iadd fs tag h of
             (fs', h') \<Rightarrow> input_from_name_st n self g fs' False h')
      | None \<Rightarrow>
          (case LookupList table of
             None \<Rightarrow> (Inl NoneHasNoAttribute, h)
           | Some lookups \<Rightarrow>
               (case chain_lookups lookups g lookup_index of
                  Inl e \<Rightarrow> (Inl e, h)
                | Inr (Some gs) \<Rightarrow> sequence_from_glyph_names_st n self gs fs h
                | Inr None \<Rightarrow> (Inl (LookupIndexNotFound lookup_index), h))))"
| "sequence_from_glyph_names_st 0 self gs fs h = (Inl RecursionDepthExceeded, h)"
| "sequence_from_glyph_names_st (Suc n) self gs fs h =
     sequence_loop_st (\<lambda>g fs' h'. input_from_name_st n self g fs' False h') gs fs [] h"

subsection \<open>Notions the properties are stated with\<close>

text \<open>
  A Type 1 subtable emits a glyph when some entry of its mapping has it as output; a
  Type 4 subtable when some ligature record has it as ligature glyph. Lookups of other
  types emit nothing the resolver follows.
\<close>

definition single_emits :: "(glyph \<times> glyph) list \<Rightarrow> glyph \<Rightarrow> bool" where
  "single_emits st name = (name \<in> snd ` set st)"

definition ligature_emits :: "(glyph \<times> ligature list) list \<Rightarrow> glyph \<Rightarrow> bool" where
  "ligature_emits st name = (\<exists>item \<in> set st. \<exists>lig \<in> set (snd item). LigGlyph lig = name)"

fun lookup_emits :: "lookup \<Rightarrow> glyph \<Rightarrow> bool" where
  "lookup_emits (SingleSubst sts) name = (\<exists>st \<in> set sts. single_emits st name)"
| "lookup_emits (LigatureSubst sts) name = (\<exists>st \<in> set sts. ligature_emits st name)"
| "lookup_emits _ name = False"

text \<open>
  A chaining subtable is a usable candidate for a lookup index when one of its
  substitution records targets the index and its lookahead or its backtrack context is
  not empty.
\<close>

definition usable_candidate :: "chain_context_subst \<Rightarrow> nat \<Rightarrow> bool" where
  "usable_candidate st k =
     (k \<in> LookupListIndex ` set (SubstLookupRecord st) \<and>
      (LookAheadCoverage st \<noteq> [] \<or> BacktrackCoverage st \<noteq> []))"

fun lookup_usable :: "lookup \<Rightarrow> nat \<Rightarrow> bool" where
  "lookup_usable (ChainContextSubst sts) k = (\<exists>st \<in> set sts. usable_candidate st k)"
| "lookup_usable _ k = False"

text \<open>The lookup index an error carries, if it carries one.\<close>

fun lookup_index_of :: "error \<Rightarrow> nat option" where
  "lookup_index_of (LookupIndexNotFound k) = Some k"
| "lookup_index_of _ = None"

text \<open>The result of the functions over tuple values, as a result over the store.\<close>

fun as_tuple :: "error + hb_input option \<Rightarrow> error + hb_input_st option" where
  "as_tuple (Inl e) = Inl e"
| "as_tuple (Inr None) = Inr None"
| "as_tuple (Inr (Some (fs, t))) = Inr (Some (Tuple fs, t))"

text \<open>
  The glyphs that resolving a glyph resolves in turn, in this order: none for a glyph
  with a code point or without a rule; else those of the first rule that emits it, which
  are the input glyph of a Type 1 entry when a feature record lists the lookup, the two
  glyphs of the first usable Type 6 candidate when none does, or the components of a
  Type 4 ligature record.
\<close>

definition nested_glyphs :: "HbInputGenerator \<Rightarrow> glyph \<Rightarrow> glyph list" where
  "nested_glyphs self name =
     (case reverse_cmap self name of
        Some cp \<Rightarrow> []
      | None \<Rightarrow>
          (case GSUB (font self) of
             None \<Rightarrow> []
           | Some table \<Rightarrow>
               (case LookupList table of
                  None \<Rightarrow> []
                | Some lookups \<Rightarrow>
                    (case lookup_loop 0 lookups name of
                       None \<Rightarrow> []
                     | Some (SingleRule g lookup_index) \<Rightarrow>
                         (case feature_loop (FeatureList table) lookup_index of
                            Some tag \<Rightarrow> [g]
                          | None \<Rightarrow>
                              (case chain_lookups lookups g lookup_index of
                                 Inr (Some gs) \<Rightarrow> gs
                               | _ \<Rightarrow> []))
                     | Some (LigatureRule gs) \<Rightarrow> gs))))"

subsection \<open>Example fonts\<close>

text \<open>A font without GSUB table; the glyph K has two code points, x has none.\<close>

definition font_plain :: font where
  "font_plain =
     \<lparr>getGlyphOrder = [''A'', ''K'', ''acute'', ''x''],
      getGlyphSet = [''A'' \<mapsto> 600, ''K'' \<mapsto> 650, ''acute'' \<mapsto> 0, ''x'' \<mapsto> 500],
      get_largest_cmap = [(65, ''A''), (75, ''K''), (8490, ''K''), (769, ''acute'')],
      GSUB = None\<rparr>"

text \<open>A single substitution A \<open>\<rightarrow>\<close> B under the feature test; B has zero width.\<close>

definition gsub_single :: gsub where
  "gsub_single =
     \<lparr>FeatureList = [\<lparr>FeatureTag = ''test'', FeatureLookupListIndex = [0]\<rparr>],
      LookupList = Some [SingleSubst [[(''A'', ''B'')]]]\<rparr>"

definition font_single :: font where
  "font_single =
     \<lparr>getGlyphOrder = [''A'', ''B''],
      getGlyphSet = [''A'' \<mapsto> 600, ''B'' \<mapsto> 0],
      get_largest_cmap = [(65, ''A'')],
      GSUB = Some gsub_single\<rparr>"

text \<open>Two single substitutions emit B; the one from A is the second.\<close>

definition gsub_two_single :: gsub where
  "gsub_two_single =
     \<lparr>FeatureList = [\<lparr>FeatureTag = ''aaaa'', FeatureLookupListIndex = [0]\<rparr>,
                     \<lparr>FeatureTag = ''test'', FeatureLookupListIndex = [1]\<rparr>],
      LookupList = Some [SingleSubst [[(''C'', ''B'')]], SingleSubst [[(''A'', ''B'')]]]\<rparr>"

definition font_two_single :: font where
  "font_two_single =
     \<lparr>getGlyphOrder = [''A'', ''B'', ''C''],
      getGlyphSet = [''A'' \<mapsto> 600, ''B'' \<mapsto> 600, ''C'' \<mapsto> 600],
      get_largest_cmap = [(65, ''A''), (67, ''C'')],
      GSUB = Some gsub_two_single\<rparr>"

text \<open>One single substitution, activated by two feature records.\<close>

definition gsub_two_tags :: gsub where
  "gsub_two_tags =
     \<lparr>FeatureList = [\<lparr>FeatureTag = ''aaaa'', FeatureLookupListIndex = [0]\<rparr>,
                     \<lparr>FeatureTag = ''test'', FeatureLookupListIndex = [0]\<rparr>],
      LookupList = Some [SingleSubst [[(''A'', ''B'')]]]\<rparr>"

definition font_two_tags :: font where
  "font_two_tags =
     \<lparr>getGlyphOrder = [''A'', ''B''],
      getGlyphSet = [''A'' \<mapsto> 600, ''B'' \<mapsto> 600],
      get_largest_cmap = [(65, ''A'')],
      GSUB = Some gsub_two_tags\<rparr>"

text \<open>The ligature f + i.\<close>

definition gsub_liga :: gsub where
  "gsub_liga =
     \<lparr>FeatureList = [\<lparr>FeatureTag = ''liga'', FeatureLookupListIndex = [0]\<rparr>],
      LookupList =
        Some [LigatureSubst [[(''f'', [\<lparr>LigGlyph = ''f_i'', Component = [''i'']\<rparr>])]]]\<rparr>"

definition font_liga :: font where
  "font_liga =
     \<lparr>getGlyphOrder = [''f'', ''i'', ''f_i''],
      getGlyphSet = [''f'' \<mapsto> 300, ''i'' \<mapsto> 250, ''f_i'' \<mapsto> 500],
      get_largest_cmap = [(102, ''f''), (105, ''i'')],
      GSUB = Some gsub_liga\<rparr>"

text \<open>The same ligature, after a single substitution that emits the ligature glyph.\<close>

definition gsub_liga_shadowed :: gsub where
  "gsub_liga_shadowed =
     \<lparr>FeatureList = [\<lparr>FeatureTag = ''smcp'', FeatureLookupListIndex = [0]\<rparr>,
                     \<lparr>FeatureTag = ''liga'', FeatureLookupListIndex = [1]\<rparr>],
      LookupList =
        Some [SingleSubst [[(''X'', ''f_i'')]],
              LigatureSubst [[(''f'', [\<lparr>LigGlyph = ''f_i'', Component = [''i'']\<rparr>])]]]\<rparr>"

definition font_liga_shadowed :: font where
  "font_liga_shadowed =
     \<lparr>getGlyphOrder = [''f'', ''i'', ''X'', ''f_i''],
      getGlyphSet = [''f'' \<mapsto> 300, ''i'' \<mapsto> 250, ''X'' \<mapsto> 600, ''f_i'' \<mapsto> 500],
      get_largest_cmap = [(102, ''f''), (105, ''i''), (88, ''X'')],
      GSUB = Some gsub_liga_shadowed\<rparr>"

text \<open>
  Chaining subtables that target lookup 0: without context, with lookahead X (and
  backtrack Y), with backtrack Y only, with lookahead Y.
\<close>

definition st_none :: chain_context_subst where
  "st_none =
     \<lparr>BacktrackCoverage = [], LookAheadCoverage = [],
      SubstLookupRecord = [\<lparr>SequenceIndex = 0, LookupListIndex = 0\<rparr>]\<rparr>"

definition st_ahead :: chain_context_subst where
  "st_ahead =
     \<lparr>BacktrackCoverage = [\<lparr>glyphs = [''Y'']\<rparr>], LookAheadCoverage = [\<lparr>glyphs = [''X'']\<rparr>],
      SubstLookupRecord = [\<lparr>SequenceIndex = 0, LookupListIndex = 0\<rparr>]\<rparr>"

definition st_back :: chain_context_subst where
  "st_back =
     \<lparr>BacktrackCoverage = [\<lparr>glyphs = [''Y'']\<rparr>], LookAheadCoverage = [],
      SubstLookupRecord = [\<lparr>SequenceIndex = 0, LookupListIndex = 0\<rparr>]\<rparr>"

definition st_ahead_Y :: chain_context_subst where
  "st_ahead_Y =
     \<lparr>BacktrackCoverage = [], LookAheadCoverage = [\<lparr>glyphs = [''Y'']\<rparr>],
      SubstLookupRecord = [\<lparr>SequenceIndex = 0, LookupListIndex = 0\<rparr>]\<rparr>"

definition gsub_chain :: "chain_context_subst list \<Rightarrow> gsub" where
  "gsub_chain sts =
     \<lparr>FeatureList = [\<lparr>FeatureTag = ''calt'', FeatureLookupListIndex = [1]\<rparr>],
      LookupList = Some [SingleSubst [[(''T'', ''U'')]], ChainContextSubst sts]\<rparr>"

definition font_chain :: "chain_context_subst list \<Rightarrow> font" where
  "font_chain sts =
     \<lparr>getGlyphOrder = [''T'', ''U'', ''X'', ''Y''],
      getGlyphSet = [''T'' \<mapsto> 600, ''U'' \<mapsto> 600, ''X'' \<mapsto> 600, ''Y'' \<mapsto> 600],
      get_largest_cmap = [(84, ''T''), (88, ''X''), (89, ''Y'')],
      GSUB = Some (gsub_chain sts)\<rparr>"

text \<open>A single substitution that sends a glyph to itself.\<close>

definition gsub_cycle :: gsub where
  "gsub_cycle =
     \<lparr>FeatureList = [\<lparr>FeatureTag = ''test'', FeatureLookupListIndex = [0]\<rparr>],
      LookupList = Some [SingleSubst [[(''g'', ''g'')]]]\<rparr>"

definition font_cycle :: font where
  "font_cycle =
     \<lparr>getGlyphOrder = [''g''],
      getGlyphSet = [''g'' \<mapsto> 600],
      get_largest_cmap = [],
      GSUB = Some gsub_cycle\<rparr>"

text \<open>
  Rules that lead back to the glyph they emit: two single substitutions that emit each
  other's input, a ligature that is its own second component, and a self-mapping whose
  lookup only a chaining rule with backtrack context targets.
\<close>

definition gsub_two_cycle :: gsub where
  "gsub_two_cycle =
     \<lparr>FeatureList = [\<lparr>FeatureTag = ''test'', FeatureLookupListIndex = [0]\<rparr>],
      LookupList = Some [SingleSubst [[(''p'', ''q''), (''q'', ''p'')]]]\<rparr>"

definition font_two_cycle :: font where
  "font_two_cycle =
     \<lparr>getGlyphOrder = [''p'', ''q''],
      getGlyphSet = [''p'' \<mapsto> 600, ''q'' \<mapsto> 600],
      get_largest_cmap = [],
      GSUB = Some gsub_two_cycle\<rparr>"

definition gsub_liga_cycle :: gsub where
  "gsub_liga_cycle =
     \<lparr>FeatureList = [\<lparr>FeatureTag = ''liga'', FeatureLookupListIndex = [0]\<rparr>],
      LookupList =
        Some [LigatureSubst [[(''f'', [\<lparr>LigGlyph = ''f_f'', Component = [''f_f'']\<rparr>])]]]\<rparr>"

definition font_liga_cycle :: font where
  "font_liga_cycle =
     \<lparr>getGlyphOrder = [''f'', ''f_f''],
      getGlyphSet = [''f'' \<mapsto> 300, ''f_f'' \<mapsto> 600],
      get_largest_cmap = [(102, ''f'')],
      GSUB = Some gsub_liga_cycle\<rparr>"

definition gsub_chain_cycle :: gsub where
  "gsub_chain_cycle =
     \<lparr>FeatureList = [\<lparr>FeatureTag = ''calt'', FeatureLookupListIndex = [1]\<rparr>],
      LookupList = Some [SingleSubst [[(''U'', ''U'')]], ChainContextSubst [st_back]]\<rparr>"

definition font_chain_cycle :: font where
  "font_chain_cycle =
     \<lparr>getGlyphOrder = [''U'', ''Y''],
      getGlyphSet = [''U'' \<mapsto> 600, ''Y'' \<mapsto> 600],
      get_largest_cmap = [(89, ''Y'')],
      GSUB = Some gsub_chain_cycle\<rparr>"

text \<open>A self-mapping of g behind an earlier rule that emits g from A.\<close>

definition gsub_shadowed_cycle :: gsub where
  "gsub_shadowed_cycle =
     \<lparr>FeatureList = [\<lparr>FeatureTag = ''test'', FeatureLookupListIndex = [0, 1]\<rparr>],
      LookupList = Some [SingleSubst [[(''A'', ''g'')]], SingleSubst [[(''g'', ''g'')]]]\<rparr>"

definition font_shadowed_cycle :: font where
  "font_shadowed_cycle =
     \<lparr>getGlyphOrder = [''A'', ''g''],
      getGlyphSet = [''A'' \<mapsto> 600, ''g'' \<mapsto> 600],
      get_largest_cmap = [(65, ''A'')],
      GSUB = Some gsub_shadowed_cycle\<rparr>"

text \<open>A store with one list object, at address 0.\<close>

definition store_kern :: store where
  "store_kern = (\<lambda>a. [])(0 := [''kern''])"

section \<open>Properties of the searches\<close>

lemma mapping_items_None: "(mapping_items st name = None) = (\<not> single_emits st name)"
  by (induction st name rule: mapping_items.induct) (auto simp: single_emits_def)

lemma mapping_items_first:
  "\<not> single_emits mpre name \<Longrightarrow> mapping_items (mpre @ (a, name) # mpost) name = Some a"
  by (induction mpre name rule: mapping_items.induct) (auto simp: single_emits_def)

lemma mapping_items_NoneI: "\<not> single_emits st name \<Longrightarrow> mapping_items st name = None"
  by (simp add: mapping_items_None)

lemma single_subtables_None:
  "(single_subtables sts name = None) = (\<forall>st \<in> set sts. \<not> single_emits st name)"
  by (induction sts) (auto simp: mapping_items_None [symmetric] split: option.splits)

lemma single_subtables_first:
  "\<forall>st \<in> set spre. \<not> single_emits st name \<Longrightarrow> mapping_items st name = Some a \<Longrightarrow>
   single_subtables (spre @ st # spost) name = Some a"
  by (induction spre) (simp_all add: mapping_items_NoneI)

lemma ligature_records_None:
  "(ligature_records ligs name = None) = (\<forall>lig \<in> set ligs. LigGlyph lig \<noteq> name)"
  by (induction ligs) auto

lemma ligature_records_Some:
  "ligature_records ligs name = Some lig \<Longrightarrow> lig \<in> set ligs \<and> LigGlyph lig = name"
  by (induction ligs) (auto split: if_splits)

lemma ligature_records_NoneI:
  "\<forall>lig \<in> set ligs. LigGlyph lig \<noteq> name \<Longrightarrow> ligature_records ligs name = None"
  by (simp add: ligature_records_None)

lemma ligature_records_first:
  "\<forall>l \<in> set lpre. LigGlyph l \<noteq> name \<Longrightarrow> LigGlyph lig = name \<Longrightarrow>
   ligature_records (lpre @ lig # lpost) name = Some lig"
  by (induction lpre) auto

lemma ligatures_items_None:
  "(ligatures_items st name = None) = (\<not> ligature_emits st name)"
  by (induction st name rule: ligatures_items.induct)
     (auto simp: ligature_emits_def ligature_records_None split: option.splits
           dest: ligature_records_Some)

lemma ligatures_items_first:
  "\<not> ligature_emits ipre name \<Longrightarrow> ligature_records ligs name = Some lig \<Longrightarrow>
   ligatures_items (ipre @ (prefix, ligs) # ipost) name = Some (prefix # Component lig)"
  by (induction ipre name rule: ligatures_items.induct)
     (simp_all add: ligature_emits_def ligature_records_NoneI)

lemma ligatures_items_NoneI: "\<not> ligature_emits st name \<Longrightarrow> ligatures_items st name = None"
  by (simp add: ligatures_items_None)

lemma ligature_subtables_None:
  "(ligature_subtables sts name = None) = (\<forall>st \<in> set sts. \<not> ligature_emits st name)"
  by (induction sts) (auto simp: ligatures_items_None [symmetric] split: option.splits)

lemma ligature_subtables_first:
  "\<forall>st \<in> set spre. \<not> ligature_emits st name \<Longrightarrow> ligatures_items st name = Some gs \<Longrightarrow>
   ligature_subtables (spre @ st # spost) name = Some gs"
  by (induction spre) (simp_all add: ligatures_items_NoneI)

lemma single_subtables_NoneI:
  "\<forall>st \<in> set sts. \<not> single_emits st name \<Longrightarrow> single_subtables sts name = None"
  by (simp add: single_subtables_None)

lemma ligature_subtables_NoneI:
  "\<forall>st \<in> set sts. \<not> ligature_emits st name \<Longrightarrow> ligature_subtables sts name = None"
  by (simp add: ligature_subtables_None)

lemma lookup_loop_skip:
  "\<forall>lk \<in> set pre. \<not> lookup_emits lk name \<Longrightarrow>
   lookup_loop i (pre @ rest) name = lookup_loop (i + length pre) rest name"
proof (induction pre arbitrary: i)
  case Nil
  then show ?case by simp
next
  case (Cons lk pre)
  then show ?case
    by (cases lk) (simp_all add: single_subtables_NoneI ligature_subtables_NoneI)
qed

lemma lookup_loop_None:
  "\<forall>lk \<in> set lookups. \<not> lookup_emits lk name \<Longrightarrow> lookup_loop i lookups name = None"
  using lookup_loop_skip [of lookups name i "[]"] by simp

lemma feature_loop_None:
  "(feature_loop frs k = None) = (\<forall>f \<in> set frs. k \<notin> set (FeatureLookupListIndex f))"
  by (induction frs) auto

lemma feature_loop_first:
  "\<forall>f \<in> set fpre. k \<notin> set (FeatureLookupListIndex f) \<Longrightarrow> k \<in> set (FeatureLookupListIndex fr) \<Longrightarrow>
   feature_loop (fpre @ fr # fpost) k = Some (FeatureTag fr)"
  by (induction fpre) auto

lemma input_from_name_direct:
  "reverse_cmap self name = Some cp \<Longrightarrow> cp \<le> maxunicode \<Longrightarrow>
   input_from_name (Suc n) self name fs pad = Inr (Some (fs, (if pad then [32, 32] else []) @ [cp]))"
  by (simp add: unichr_def)


lemma sub_lookup_loop_skip:
  "\<forall>r \<in> set recs. LookupListIndex r = k \<longrightarrow> LookAheadCoverage st = [] \<and> BacktrackCoverage st = [] \<Longrightarrow>
   sub_lookup_loop st recs g k = Inr None"
  by (induction recs) auto

lemma sub_lookup_loop_unusable:
  "\<not> usable_candidate st k \<Longrightarrow> sub_lookup_loop st (SubstLookupRecord st) g k = Inr None"
  by (rule sub_lookup_loop_skip) (auto simp: usable_candidate_def)

lemma sub_lookup_loop_lookahead:
  "k \<in> LookupListIndex ` set recs \<Longrightarrow> LookAheadCoverage st = la # las \<Longrightarrow> glyphs la = x # xs \<Longrightarrow>
   sub_lookup_loop st recs g k = Inr (Some [g, x])"
  by (induction recs) auto

lemma sub_lookup_loop_backtrack:
  "k \<in> LookupListIndex ` set recs \<Longrightarrow> LookAheadCoverage st = [] \<Longrightarrow>
   BacktrackCoverage st = bt # bts \<Longrightarrow> glyphs bt = y # ys \<Longrightarrow>
   sub_lookup_loop st recs g k = Inr (Some [y, g])"
  by (induction recs) auto

lemma chain_subtables_skip:
  "\<forall>s \<in> set spre. \<not> usable_candidate s k \<Longrightarrow>
   chain_subtables (spre @ rest) g k = chain_subtables rest g k"
  by (induction spre) (simp_all add: sub_lookup_loop_unusable)

lemma chain_subtables_None:
  "\<forall>s \<in> set sts. \<not> usable_candidate s k \<Longrightarrow> chain_subtables sts g k = Inr None"
  using chain_subtables_skip [of sts k "[]" g] by simp

lemma chain_lookups_skip:
  "\<forall>lk \<in> set pre. \<not> lookup_usable lk k \<Longrightarrow>
   chain_lookups (pre @ rest) g k = chain_lookups rest g k"
proof (induction pre)
  case Nil
  then show ?case by simp
next
  case (Cons lk pre)
  then show ?case by (cases lk) (simp_all add: chain_subtables_None)
qed

lemma chain_lookups_None:
  "\<forall>lk \<in> set lookups. \<not> lookup_usable lk k \<Longrightarrow> chain_lookups lookups g k = Inr None"
  using chain_lookups_skip [of lookups k "[]" g] by simp

lemma no_rule_no_result:
  assumes "reverse_cmap self name = None"
    and "GSUB (font self) = None \<or>
         (\<exists>table. GSUB (font self) = Some table \<and>
            (LookupList table = None \<or>
             (\<exists>lookups. LookupList table = Some lookups \<and>
                (\<forall>lk \<in> set lookups. \<not> lookup_emits lk name))))"
  shows "input_from_name (Suc n) self name fs pad = Inr None"
  using assms by (auto simp: lookup_loop_None)

lemma sequence_loop_more_depth:
  assumes "\<And>g fs. r1 g fs \<noteq> Inl RecursionDepthExceeded \<Longrightarrow> r2 g fs = r1 g fs"
  shows "sequence_loop r1 gs fs acc \<noteq> Inl RecursionDepthExceeded \<Longrightarrow>
         sequence_loop r2 gs fs acc = sequence_loop r1 gs fs acc"
proof (induction gs arbitrary: fs acc)
  case Nil
  then show ?case by simp
next
  case (Cons g gs)
  show ?case
  proof (cases "r1 g fs")
    case (Inl e)
    with Cons.prems have "r1 g fs \<noteq> Inl RecursionDepthExceeded" by auto
    then have "r2 g fs = r1 g fs" by (rule assms)
    with Inl show ?thesis by simp
  next
    case (Inr res)
    then have eq: "r2 g fs = r1 g fs" by (intro assms) simp
    show ?thesis
    proof (cases res)
      case None
      with Inr eq show ?thesis by simp
    next
      case (Some p)
      obtain fs' t where p: "p = (fs', t)" by (cases p)
      from Cons.prems Inr Some p
      have "sequence_loop r1 gs fs' (acc @ [t]) \<noteq> Inl RecursionDepthExceeded" by simp
      then have "sequence_loop r2 gs fs' (acc @ [t]) = sequence_loop r1 gs fs' (acc @ [t])"
        by (rule Cons.IH)
      with Inr Some p eq show ?thesis by simp
    qed
  qed
qed

lemma resolver_more_depth:
  assumes "reverse_cmap s' = reverse_cmap s" and "GSUB (font s') = GSUB (font s)"
  shows "(\<forall>name fs pad. input_from_name n s name fs pad \<noteq> Inl RecursionDepthExceeded \<longrightarrow>
            input_from_name (n + k) s' name fs pad = input_from_name n s name fs pad) \<and>
         (\<forall>table g i fs. input_with_context n s table g i fs \<noteq> Inl RecursionDepthExceeded \<longrightarrow>
            input_with_context (n + k) s' table g i fs = input_with_context n s table g i fs) \<and>
         (\<forall>gs fs. sequence_from_glyph_names n s gs fs \<noteq> Inl RecursionDepthExceeded \<longrightarrow>
            sequence_from_glyph_names (n + k) s' gs fs = sequence_from_glyph_names n s gs fs)"
proof (induction n)
  case 0
  then show ?case by simp
next
  case (Suc n)
  have 1: "input_from_name (Suc n + k) s' name fs pad = input_from_name (Suc n) s name fs pad"
    if "input_from_name (Suc n) s name fs pad \<noteq> Inl RecursionDepthExceeded" for name fs pad
    using that Suc assms by (auto split: option.splits sum.splits rule.splits)
  have 2: "input_with_context (Suc n + k) s' table g i fs = input_with_context (Suc n) s table g i fs"
    if "input_with_context (Suc n) s table g i fs \<noteq> Inl RecursionDepthExceeded" for table g i fs
    using that Suc by (auto split: option.splits sum.splits)
  have 3: "sequence_from_glyph_names (Suc n + k) s' gs fs = sequence_from_glyph_names (Suc n) s gs fs"
    if "sequence_from_glyph_names (Suc n) s gs fs \<noteq> Inl RecursionDepthExceeded" for gs fs
  proof -
    have "sequence_loop (\<lambda>g fs'. input_from_name (n + k) s' g fs' False) gs fs [] =
          sequence_loop (\<lambda>g fs'. input_from_name n s g fs' False) gs fs []"
      using that Suc by (intro sequence_loop_more_depth) auto
    then show ?thesis by simp
  qed
  from 1 2 3 show ?case by blast
qed


lemma lookup_loop_single_first:
  assumes "\<forall>lk \<in> set pre. \<not> lookup_emits lk name"
    and "\<forall>st \<in> set spre. \<not> single_emits st name"
    and "\<not> single_emits mpre name"
  shows "lookup_loop 0 (pre @ SingleSubst (spre @ (mpre @ (a, name) # mpost) # spost) # post) name =
         Some (SingleRule a (length pre))"
proof -
  have "mapping_items (mpre @ (a, name) # mpost) name = Some a"
    using assms(3) by (rule mapping_items_first)
  with assms(2)
  have "single_subtables (spre @ (mpre @ (a, name) # mpost) # spost) name = Some a"
    by (rule single_subtables_first)
  then show ?thesis
    using lookup_loop_skip [OF assms(1), of 0] by simp
qed

lemma lookup_loop_ligature_first:
  assumes "\<forall>lk \<in> set pre. \<not> lookup_emits lk name"
    and "\<forall>st \<in> set spre. \<not> ligature_emits st name"
    and "\<not> ligature_emits ipre name"
    and "\<forall>l \<in> set lpre. LigGlyph l \<noteq> name"
    and "LigGlyph lig = name"
  shows "lookup_loop 0
           (pre @ LigatureSubst (spre @ (ipre @ (prefix, lpre @ lig # lpost) # ipost) # spost) # post)
           name =
         Some (LigatureRule (prefix # Component lig))"
proof -
  have "ligature_records (lpre @ lig # lpost) name = Some lig"
    using assms(4,5) by (rule ligature_records_first)
  with assms(3)
  have "ligatures_items (ipre @ (prefix, lpre @ lig # lpost) # ipost) name =
        Some (prefix # Component lig)"
    by (rule ligatures_items_first)
  with assms(2)
  have "ligature_subtables (spre @ (ipre @ (prefix, lpre @ lig # lpost) # ipost) # spost) name =
        Some (prefix # Component lig)"
    by (rule ligature_subtables_first)
  then show ?thesis
    using lookup_loop_skip [OF assms(1), of 0] by simp
qed

lemma sequence_loop_acc:
  "sequence_loop r gs fs acc =
     (case sequence_loop r gs fs [] of
        Inl e \<Rightarrow> Inl e
      | Inr None \<Rightarrow> Inr None
      | Inr (Some (fs', t)) \<Rightarrow> Inr (Some (fs', concat acc @ t)))"
proof (induction gs arbitrary: fs acc)
  case Nil
  then show ?case by simp
next
  case (Cons g gs)
  show ?case
  proof (cases "r g fs")
    case (Inl e)
    then show ?thesis by simp
  next
    case (Inr res)
    show ?thesis
    proof (cases res)
      case None
      with Inr show ?thesis by simp
    next
      case (Some p)
      obtain fs1 t1 where p: "p = (fs1, t1)" by (cases p)
      show ?thesis
        using Inr Some p Cons.IH [of fs1 "acc @ [t1]"] Cons.IH [of fs1 "[t1]"]
        by (auto split: sum.splits option.splits)
    qed
  qed
qed

lemma sequence_loop_append:
  "sequence_loop r pre fs acc = Inr (Some (fs', t)) \<Longrightarrow>
   sequence_loop r (pre @ rest) fs acc = sequence_loop r rest fs' [t]"
proof (induction pre arbitrary: fs acc)
  case Nil
  then have "fs' = fs" and "t = concat acc" by simp_all
  then show ?case
    using sequence_loop_acc [of r rest fs acc] sequence_loop_acc [of r rest fs "[concat acc]"]
    by (auto split: sum.splits option.splits)
next
  case (Cons g pre)
  then show ?case
    by (auto split: sum.splits option.splits)
qed

lemma sequence_two_direct_hits:
  assumes "reverse_cmap self a = Some ca" and "ca \<le> maxunicode"
    and "reverse_cmap self b = Some cb" and "cb \<le> maxunicode"
  shows "sequence_from_glyph_names (Suc (Suc n)) self [a, b] fs = Inr (Some (fs, [ca] @ [cb]))"
  using assms by (simp add: unichr_def)



lemma resolver_frame:
  assumes "reverse_cmap s' = reverse_cmap s" and "GSUB (font s') = GSUB (font s)"
  shows "input_from_name n s' name fs pad = input_from_name n s name fs pad"
proof (cases "input_from_name n s name fs pad = Inl RecursionDepthExceeded")
  case False
  then show ?thesis
    using resolver_more_depth [OF assms, of n 0] by simp
next
  case True
  show ?thesis
  proof (rule ccontr)
    assume neq: "input_from_name n s' name fs pad \<noteq> input_from_name n s name fs pad"
    with True have "input_from_name n s' name fs pad \<noteq> Inl RecursionDepthExceeded" by simp
    then have "input_from_name n s name fs pad = input_from_name n s' name fs pad"
      using resolver_more_depth [OF assms [symmetric], of n 0] by simp
    with neq show False by simp
  qed
qed

lemma all_inputs_loop_frame:
  assumes "reverse_cmap s' = reverse_cmap s" and "GSUB (font s') = GSUB (font s)"
    and "getGlyphSet (font s') = getGlyphSet (font s)"
  shows "all_inputs_loop n s' warn names inputs out = all_inputs_loop n s warn names inputs out"
proof (induction names arbitrary: inputs out)
  case Nil
  show ?case by simp
next
  case (Cons name names)
  have fr: "input_from_name n s' name [] p = input_from_name n s name [] p" for p
    by (rule resolver_frame [OF assms(1,2)])
  show ?case
  proof (cases "getGlyphSet (font s) name")
    case None
    then show ?thesis by (simp add: assms(3))
  next
    case (Some w)
    show ?thesis
    proof (cases "input_from_name n s name [] (w = 0)")
      case (Inl e)
      with Some show ?thesis by (simp add: assms(3) fr)
    next
      case (Inr res)
      with Some show ?thesis by (cases res) (simp_all add: assms(3) fr Cons.IH)
    qed
  qed
qed

lemma all_inputs_loop_step:
  assumes "all_inputs_loop n self warn (name # names) inputs out = (out', Inr result)"
  shows "\<exists>w. getGlyphSet (font self) name = Some w \<and>
           ((\<exists>cur. input_from_name n self name [] (w = 0) = Inr (Some cur) \<and>
                   all_inputs_loop n self warn names (inputs @ [cur]) out = (out', Inr result)) \<or>
            (input_from_name n self name [] (w = 0) = Inr None \<and>
             (\<exists>out1. all_inputs_loop n self warn names inputs out1 = (out', Inr result))))"
proof (cases "getGlyphSet (font self) name")
  case None
  with assms show ?thesis by simp
next
  case (Some w)
  show ?thesis
  proof (cases "input_from_name n self name [] (w = 0)")
    case (Inl e)
    with assms Some show ?thesis by simp
  next
    case (Inr res)
    show ?thesis
    proof (cases res)
      case None
      with assms Some Inr
      have "all_inputs_loop n self warn names inputs
              (if warn then out @ [''not tested (unreachable?): '' @ name] else out) =
            (out', Inr result)"
        by simp
      with Some Inr None show ?thesis by blast
    next
      case (Some cur)
      with assms \<open>getGlyphSet (font self) name = Some w\<close> Inr
      have "all_inputs_loop n self warn names (inputs @ [cur]) out = (out', Inr result)"
        by simp
      with \<open>getGlyphSet (font self) name = Some w\<close> Inr Some show ?thesis by blast
    qed
  qed
qed

lemma all_inputs_loop_keeps:
  "all_inputs_loop n self warn names inputs out = (out', Inr result) \<Longrightarrow>
   set inputs \<subseteq> set result"
proof (induction names arbitrary: inputs out)
  case Nil
  then show ?case by simp
next
  case (Cons name names)
  from all_inputs_loop_step [OF Cons.prems]
  consider cur where "all_inputs_loop n self warn names (inputs @ [cur]) out = (out', Inr result)"
    | out1 where "all_inputs_loop n self warn names inputs out1 = (out', Inr result)"
    by blast
  then show ?case
  proof cases
    case 1
    then have "set (inputs @ [cur]) \<subseteq> set result" by (rule Cons.IH)
    then show ?thesis by simp
  next
    case 2
    then show ?thesis by (rule Cons.IH)
  qed
qed

lemma all_inputs_loop_direct_hit:
  assumes some: "\<And>p. input_from_name n self name [] p \<noteq> Inr None"
    and hit: "\<And>p r. input_from_name n self name [] p = Inr (Some r) \<Longrightarrow>
                r = ([], (if p then [32, 32] else []) @ [cp])"
    and "all_inputs_loop n self warn names inputs out = (out', Inr result)"
    and "name \<in> set names"
  shows "\<exists>w. getGlyphSet (font self) name = Some w \<and>
             ([], (if w = 0 then [32, 32] else []) @ [cp]) \<in> set result"
  using assms(3,4)
proof (induction names arbitrary: inputs out)
  case Nil
  then show ?case by simp
next
  case (Cons nm names)
  from all_inputs_loop_step [OF Cons.prems(1)]
  obtain w where w: "getGlyphSet (font self) nm = Some w"
    and alt: "(\<exists>cur. input_from_name n self nm [] (w = 0) = Inr (Some cur) \<and>
                all_inputs_loop n self warn names (inputs @ [cur]) out = (out', Inr result)) \<or>
              (input_from_name n self nm [] (w = 0) = Inr None \<and>
               (\<exists>out1. all_inputs_loop n self warn names inputs out1 = (out', Inr result)))"
    by blast
  show ?case
  proof (cases "nm = name")
    case True
    with alt some obtain cur where
      cur: "input_from_name n self name [] (w = 0) = Inr (Some cur)" and
      rest: "all_inputs_loop n self warn names (inputs @ [cur]) out = (out', Inr result)"
      by blast
    from cur have "cur = ([], (if w = 0 then [32, 32] else []) @ [cp])" by (rule hit)
    moreover from rest have "set (inputs @ [cur]) \<subseteq> set result" by (rule all_inputs_loop_keeps)
    ultimately have "([], (if w = 0 then [32, 32] else []) @ [cp]) \<in> set result" by auto
    with w True show ?thesis by blast
  next
    case False
    with Cons.prems(2) have mem: "name \<in> set names" by simp
    from alt obtain inputs' out1 where
      "all_inputs_loop n self warn names inputs' out1 = (out', Inr result)"
      by blast
    then show ?thesis using mem by (rule Cons.IH)
  qed
qed

lemma all_inputs_loop_remove:
  assumes none: "\<And>p. input_from_name n self name [] p = Inr None"
    and "all_inputs_loop n self warn names inputs out1 = (out1', Inr result)"
  shows "snd (all_inputs_loop n self warn (removeAll name names) inputs out2) = Inr result"
  using assms(2)
proof (induction names arbitrary: inputs out1 out2)
  case Nil
  then show ?case by simp
next
  case (Cons nm names)
  from all_inputs_loop_step [OF Cons.prems]
  obtain w where w: "getGlyphSet (font self) nm = Some w"
    and alt: "(\<exists>cur. input_from_name n self nm [] (w = 0) = Inr (Some cur) \<and>
                all_inputs_loop n self warn names (inputs @ [cur]) out1 = (out1', Inr result)) \<or>
              (input_from_name n self nm [] (w = 0) = Inr None \<and>
               (\<exists>out3. all_inputs_loop n self warn names inputs out3 = (out1', Inr result)))"
    by blast
  show ?case
  proof (cases "nm = name")
    case True
    with alt none obtain out3 where
      "all_inputs_loop n self warn names inputs out3 = (out1', Inr result)"
      by auto
    then have "snd (all_inputs_loop n self warn (removeAll name names) inputs out2) = Inr result"
      by (rule Cons.IH)
    with True show ?thesis by simp
  next
    case False
    from alt show ?thesis
    proof
      assume "\<exists>cur. input_from_name n self nm [] (w = 0) = Inr (Some cur) \<and>
                all_inputs_loop n self warn names (inputs @ [cur]) out1 = (out1', Inr result)"
      then obtain cur where
        cur: "input_from_name n self nm [] (w = 0) = Inr (Some cur)" and
        rest: "all_inputs_loop n self warn names (inputs @ [cur]) out1 = (out1', Inr result)"
        by blast
      from rest
      have "snd (all_inputs_loop n self warn (removeAll name names) (inputs @ [cur]) out2) =
            Inr result"
        by (rule Cons.IH)
      with False w cur show ?thesis by simp
    next
      assume "input_from_name n self nm [] (w = 0) = Inr None \<and>
              (\<exists>out3. all_inputs_loop n self warn names inputs out3 = (out1', Inr result))"
      then obtain out3 where
        non: "input_from_name n self nm [] (w = 0) = Inr None" and
        rest: "all_inputs_loop n self warn names inputs out3 = (out1', Inr result)"
        by blast
      from rest
      have "snd (all_inputs_loop n self warn (removeAll name names) inputs
                   (if warn then out2 @ [''not tested (unreachable?): '' @ nm] else out2)) =
            Inr result"
        by (rule Cons.IH)
      with False w non show ?thesis by simp
    qed
  qed
qed

lemma sequence_loop_tuple:
  assumes "\<And>g fs h. r' g (Tuple fs) h = (as_tuple (r g fs), h)"
  shows "sequence_loop_st r' gs (Tuple fs) acc h = (as_tuple (sequence_loop r gs fs acc), h)"
proof (induction gs arbitrary: fs acc)
  case Nil
  show ?case by simp
next
  case (Cons g gs)
  show ?case
  proof (cases "r g fs")
    case (Inl e)
    then show ?thesis by (simp add: assms)
  next
    case (Inr res)
    show ?thesis
    proof (cases res)
      case None
      with Inr show ?thesis by (simp add: assms)
    next
      case (Some p)
      obtain fs1 t1 where "p = (fs1, t1)" by (cases p)
      with Inr Some show ?thesis by (simp add: assms Cons.IH)
    qed
  qed
qed

lemma tuple_refines:
  "(\<forall>name fs pad h. input_from_name_st n self name (Tuple fs) pad h =
       (as_tuple (input_from_name n self name fs pad), h)) \<and>
   (\<forall>table g k fs h. input_with_context_st n self table g k (Tuple fs) h =
       (as_tuple (input_with_context n self table g k fs), h)) \<and>
   (\<forall>gs fs h. sequence_from_glyph_names_st n self gs (Tuple fs) h =
       (as_tuple (sequence_from_glyph_names n self gs fs), h))"
proof (induction n)
  case 0
  show ?case by simp
next
  case (Suc n)
  have 1: "input_from_name_st (Suc n) self name (Tuple fs) pad h =
           (as_tuple (input_from_name (Suc n) self name fs pad), h)" for name fs pad h
    using Suc by (simp split: option.splits sum.splits rule.splits)
  have 2: "input_with_context_st (Suc n) self table g k (Tuple fs) h =
           (as_tuple (input_with_context (Suc n) self table g k fs), h)" for table g k fs h
    using Suc by (simp split: option.splits sum.splits)
  have 3: "sequence_from_glyph_names_st (Suc n) self gs (Tuple fs) h =
           (as_tuple (sequence_from_glyph_names (Suc n) self gs fs), h)" for gs fs h
  proof -
    have "sequence_loop_st (\<lambda>g fs' h'. input_from_name_st n self g fs' False h') gs (Tuple fs) [] h =
          (as_tuple (sequence_loop (\<lambda>g fs'. input_from_name n self g fs' False) gs fs []), h)"
      using Suc by (intro sequence_loop_tuple) simp
    then show ?thesis by simp
  qed
  from 1 2 3 show ?case by blast
qed

lemma resolves_or_exceeds:
  assumes "input_from_name m self p fs pad = Inr (Some r)"
  shows "input_from_name i self p fs pad = Inr (Some r) \<or>
         input_from_name i self p fs pad = Inl RecursionDepthExceeded"
proof (cases "input_from_name i self p fs pad = Inl RecursionDepthExceeded")
  case True
  then show ?thesis by simp
next
  case False
  show ?thesis
  proof (cases "i \<le> m")
    case True
    then obtain k where "m = i + k" by (auto simp: le_iff_add)
    with False resolver_more_depth [of self self i k] assms show ?thesis by auto
  next
    case False
    then have "m \<le> i" by simp
    then obtain k where "i = m + k" by (auto simp: le_iff_add)
    with assms resolver_more_depth [of self self m k] show ?thesis by auto
  qed
qed

lemma sequence_loop_exceeds:
  assumes "\<forall>p \<in> set pre. \<forall>fs. (\<exists>x. r p fs = Inr (Some x)) \<or> r p fs = Inl RecursionDepthExceeded"
    and "\<forall>fs. r g fs = Inl RecursionDepthExceeded"
  shows "sequence_loop r (pre @ g # post) fs acc = Inl RecursionDepthExceeded"
  using assms(1)
proof (induction pre arbitrary: fs acc)
  case Nil
  show ?case using assms(2) by simp
next
  case (Cons p pre)
  then have alt: "(\<exists>x. r p fs = Inr (Some x)) \<or> r p fs = Inl RecursionDepthExceeded" by simp
  from Cons.prems have rest: "\<forall>p \<in> set pre. \<forall>fs. (\<exists>x. r p fs = Inr (Some x)) \<or>
                                r p fs = Inl RecursionDepthExceeded"
    by simp
  from alt show ?case
  proof
    assume "\<exists>x. r p fs = Inr (Some x)"
    then obtain fs1 t1 where "r p fs = Inr (Some (fs1, t1))" by auto
    then show ?thesis using Cons.IH [OF rest, of fs1 "acc @ [t1]"] by simp
  next
    assume "r p fs = Inl RecursionDepthExceeded"
    then show ?thesis by simp
  qed
qed

section \<open>The claims\<close>

text \<open>
  C5. A call of \<^verbatim>\<open>_input_with_context\<close> for a lookup index that no feature record
  lists and that no Type 6 subtable targets with a lookahead or backtrack context
  raises the error that names the lookup index; it does not return absence. The table
  is one whose lookup list is present, as in the call that \<^verbatim>\<open>input_from_name\<close> makes.
\<close>

theorem lookup_index_not_found:
  assumes "LookupList table = Some lookups"
    and "\<forall>f \<in> set (FeatureList table). k \<notin> set (FeatureLookupListIndex f)"
    and "\<forall>lk \<in> set lookups. \<not> lookup_usable lk k"
  shows "input_with_context (Suc n) self table g k fs = Inl (LookupIndexNotFound k)"
proof -
  have "feature_loop (FeatureList table) k = None"
    using assms(2) by (simp add: feature_loop_None)
  moreover have "chain_lookups lookups g k = Inr None"
    using assms(3) by (rule chain_lookups_None)
  ultimately show ?thesis
    using assms(1) by simp
qed


theorem lookup_index_not_found_witness:
  "input_with_context (Suc 0) (init (font_chain [st_none])) (gsub_chain [st_none]) ''T'' 0 [] =
     Inl (LookupIndexNotFound 0) \<and>
   lookup_index_of (LookupIndexNotFound 0) = Some 0"
proof -
  have 1: "LookupList (gsub_chain [st_none]) =
             Some [SingleSubst [[(''T'', ''U'')]], ChainContextSubst [st_none]]"
    by (simp add: gsub_chain_def)
  have 2: "\<forall>f \<in> set (FeatureList (gsub_chain [st_none])). 0 \<notin> set (FeatureLookupListIndex f)"
    by (simp add: gsub_chain_def)
  have 3: "\<forall>lk \<in> set [SingleSubst [[(''T'', ''U'')]], ChainContextSubst [st_none]].
             \<not> lookup_usable lk 0"
    by (simp add: usable_candidate_def st_none_def)
  show ?thesis
    using lookup_index_not_found [OF 1 2 3] by simp
qed

text \<open>
  C9 (as stated). Any two calls of the resolver with identical arguments would produce
  identical output, no shared state being mutated. With a list as features, the call
  extends the caller's list in place: below the list holds kern, then kern and test
  after one call, and a second call with the same list returns it with test twice.
\<close>

theorem list_features_counterexample:
  "tags_of (ListRef 0) store_kern = [''kern''] \<and>
   fst (input_from_name_st (Suc (Suc (Suc 0))) (init font_single) ''B'' (ListRef 0) False store_kern) =
     Inr (Some (ListRef 0, [65])) \<and>
   tags_of (ListRef 0)
     (snd (input_from_name_st (Suc (Suc (Suc 0))) (init font_single) ''B'' (ListRef 0) False
        store_kern)) = [''kern'', ''test''] \<and>
   fst (input_from_name_st (Suc (Suc (Suc 0))) (init font_single) ''B'' (ListRef 0) False
     (snd (input_from_name_st (Suc (Suc (Suc 0))) (init font_single) ''B'' (ListRef 0) False
        store_kern))) = Inr (Some (ListRef 0, [65])) \<and>
   tags_of (ListRef 0)
     (snd (input_from_name_st (Suc (Suc (Suc 0))) (init font_single) ''B'' (ListRef 0) False
       (snd (input_from_name_st (Suc (Suc (Suc 0))) (init font_single) ''B'' (ListRef 0) False
          store_kern)))) = [''kern'', ''test'', ''test'']"
  by (simp add: init_def build_reverse_cmap_def font_single_def gsub_single_def unichr_def
      maxunicode_def store_kern_def)

text \<open>
  C9 (amended). With the features given as a tuple, as by default, the resolver is
  deterministic: any two calls with identical arguments produce identical output,
  whatever the store holds at each call, and each leaves the store as it found it. It
  reads the reverse character map and the tables and mutates no shared state.
\<close>

theorem resolve_tuple_deterministic:
  assumes "input_from_name_st n self name (Tuple fs) pad h = (r1, h1)"
    and "input_from_name_st n self name (Tuple fs) pad h' = (r2, h2)"
  shows "r2 = r1 \<and> h1 = h \<and> h2 = h'"
proof -
  have "input_from_name_st n self name (Tuple fs) pad s =
        (as_tuple (input_from_name n self name fs pad), s)" for s
    using tuple_refines [of n self] by blast
  with assms show ?thesis by simp
qed

theorem resolve_tuple_deterministic_witness:
  "input_from_name_st (Suc (Suc (Suc 0))) (init font_single) ''B'' (Tuple [''kern'']) False store_kern =
     (Inr (Some (Tuple [''kern'', ''test''], [65])), store_kern) \<and>
   input_from_name_st (Suc (Suc (Suc 0))) (init font_single) ''B'' (Tuple [''kern'']) False
     (store_kern(0 := [])) =
     (Inr (Some (Tuple [''kern'', ''test''], [65])), store_kern(0 := []))"
proof -
  have 1: "input_from_name_st (Suc (Suc (Suc 0))) (init font_single) ''B'' (Tuple [''kern'']) False
             store_kern =
           (Inr (Some (Tuple [''kern'', ''test''], [65])), store_kern)"
    by (simp add: init_def build_reverse_cmap_def font_single_def gsub_single_def unichr_def
        maxunicode_def)
  obtain r2 h2 where 2: "input_from_name_st (Suc (Suc (Suc 0))) (init font_single) ''B''
                           (Tuple [''kern'']) False (store_kern(0 := [])) = (r2, h2)"
    by (rule prod.exhaust)
  from resolve_tuple_deterministic [OF 1 2]
  have "r2 = Inr (Some (Tuple [''kern'', ''test''], [65]))" and "h2 = store_kern(0 := [])"
    by simp_all
  with 1 2 show ?thesis by simp
qed

text \<open>
  C1 (as stated). A font whose GSUB table contains a Type 1 subtable that maps A to B,
  where B has no code point, A has one and a feature record with tag test lists the
  lookup, would always resolve B to the features with test appended and the text of A.
  The code returns at the first rule that emits B, in table order, and takes the tag of
  the first feature record that lists the lookup: in the first font below an earlier
  lookup emits B from C, in the second an earlier feature record lists the lookup.
\<close>

theorem single_substitution_counterexample:
  "LookupList gsub_two_single =
     Some [SingleSubst [[(''C'', ''B'')]], SingleSubst [[(''A'', ''B'')]]] \<and>
   FeatureList gsub_two_single =
     [\<lparr>FeatureTag = ''aaaa'', FeatureLookupListIndex = [0]\<rparr>,
      \<lparr>FeatureTag = ''test'', FeatureLookupListIndex = [1]\<rparr>] \<and>
   reverse_cmap (init font_two_single) ''B'' = None \<and>
   reverse_cmap (init font_two_single) ''A'' = Some 65 \<and>
   input_from_name (Suc (Suc (Suc 0))) (init font_two_single) ''B'' [] False =
     Inr (Some ([''aaaa''], [67])) \<and>
   input_from_name (Suc (Suc (Suc 0))) (init font_two_single) ''B'' [] False \<noteq>
     Inr (Some ([''test''], [65])) \<and>
   LookupList gsub_two_tags = Some [SingleSubst [[(''A'', ''B'')]]] \<and>
   FeatureList gsub_two_tags =
     [\<lparr>FeatureTag = ''aaaa'', FeatureLookupListIndex = [0]\<rparr>,
      \<lparr>FeatureTag = ''test'', FeatureLookupListIndex = [0]\<rparr>] \<and>
   reverse_cmap (init font_two_tags) ''B'' = None \<and>
   reverse_cmap (init font_two_tags) ''A'' = Some 65 \<and>
   input_from_name (Suc (Suc (Suc 0))) (init font_two_tags) ''B'' [] False =
     Inr (Some ([''aaaa''], [65])) \<and>
   input_from_name (Suc (Suc (Suc 0))) (init font_two_tags) ''B'' [] False \<noteq>
     Inr (Some ([''test''], [65]))"
  by (simp add: init_def build_reverse_cmap_def font_two_single_def gsub_two_single_def
      font_two_tags_def gsub_two_tags_def unichr_def maxunicode_def)

text \<open>
  C1 (amended). When the entry that maps A to B is the first rule, in table order, that
  emits B (no earlier lookup, no earlier subtable of the lookup and no earlier entry of
  the mapping emits B), the first feature record that lists the lookup's index has the
  tag test, B has no code point and A has a direct Unicode hit, the resolver returns
  for B the features with test appended and the text of A, whatever \<open>pad\<close> is.
\<close>

theorem single_substitution_first_rule:
  assumes "reverse_cmap self B = None"
    and "GSUB (font self) = Some table"
    and "LookupList table =
           Some (pre @ SingleSubst (spre @ (mpre @ (A, B) # mpost) # spost) # post)"
    and "\<forall>lk \<in> set pre. \<not> lookup_emits lk B"
    and "\<forall>st \<in> set spre. \<not> single_emits st B"
    and "\<not> single_emits mpre B"
    and "FeatureList table = fpre @ fr # fpost"
    and "\<forall>f \<in> set fpre. length pre \<notin> set (FeatureLookupListIndex f)"
    and "length pre \<in> set (FeatureLookupListIndex fr)"
    and "FeatureTag fr = ''test''"
    and "reverse_cmap self A = Some a"
    and "a \<le> maxunicode"
  shows "input_from_name (Suc (Suc (Suc n))) self B fs pad = Inr (Some (fs @ [''test''], [a]))"
proof -
  have rule: "lookup_loop 0 (pre @ SingleSubst (spre @ (mpre @ (A, B) # mpost) # spost) # post) B =
              Some (SingleRule A (length pre))"
    using assms(4-6) by (rule lookup_loop_single_first)
  have tag: "feature_loop (FeatureList table) (length pre) = Some ''test''"
    using feature_loop_first [OF assms(8,9)] assms(7,10) by simp
  have "input_from_name (Suc n) self A (fs @ [''test'']) False = Inr (Some (fs @ [''test''], [a]))"
    using input_from_name_direct [OF assms(11,12)] by simp
  then have "input_with_context (Suc (Suc n)) self table A (length pre) fs =
             Inr (Some (fs @ [''test''], [a]))"
    using tag by simp
  then show ?thesis
    using assms(1-3) rule by simp
qed

theorem single_substitution_first_rule_witness:
  "reverse_cmap (init font_single) ''B'' = None \<and>
   reverse_cmap (init font_single) ''A'' = Some 65 \<and>
   input_from_name (Suc (Suc (Suc 0))) (init font_single) ''B'' [] False =
     Inr (Some ([''test''], [65]))"
proof -
  have 1: "reverse_cmap (init font_single) ''B'' = None"
    by (simp add: init_def build_reverse_cmap_def font_single_def)
  have 2: "GSUB (font (init font_single)) = Some gsub_single"
    by (simp add: init_def font_single_def)
  have 3: "LookupList gsub_single =
             Some ([] @ SingleSubst ([] @ ([] @ (''A'', ''B'') # []) # []) # [])"
    by (simp add: gsub_single_def)
  have 4: "\<forall>lk \<in> set []. \<not> lookup_emits lk ''B''" by simp
  have 5: "\<forall>st \<in> set []. \<not> single_emits st ''B''" by simp
  have 6: "\<not> single_emits [] ''B''" by (simp add: single_emits_def)
  have 7: "FeatureList gsub_single =
             [] @ \<lparr>FeatureTag = ''test'', FeatureLookupListIndex = [0]\<rparr> # []"
    by (simp add: gsub_single_def)
  have 8: "\<forall>f \<in> set []. length ([] :: lookup list) \<notin> set (FeatureLookupListIndex f)" by simp
  have 9: "length ([] :: lookup list) \<in>
             set (FeatureLookupListIndex \<lparr>FeatureTag = ''test'', FeatureLookupListIndex = [0]\<rparr>)"
    by simp
  have 10: "FeatureTag \<lparr>FeatureTag = ''test'', FeatureLookupListIndex = [0]\<rparr> = ''test''" by simp
  have 11: "reverse_cmap (init font_single) ''A'' = Some 65"
    by (simp add: init_def build_reverse_cmap_def font_single_def)
  have 12: "(65::nat) \<le> maxunicode" by (simp add: maxunicode_def)
  show ?thesis
    using single_substitution_first_rule [OF 1 2 3 4 5 6 7 8 9 10 11 12, of 0 "[]" False] 1 11
    by simp
qed

text \<open>
  C10 (as stated). A Type 1 subtable that maps a glyph to itself, in a lookup that a
  feature record lists, would make the recursion endless, and the resolver would return
  for every glyph only if the rules are well-founded. A cycle among the rules does no
  harm when the code never follows it: below an earlier rule emits g from A, the
  self-mapping of g is not reached and g resolves to the text of A.
\<close>

theorem shadowed_cycle_counterexample:
  "LookupList gsub_shadowed_cycle =
     Some [SingleSubst [[(''A'', ''g'')]], SingleSubst [[(''g'', ''g'')]]] \<and>
   FeatureList gsub_shadowed_cycle =
     [\<lparr>FeatureTag = ''test'', FeatureLookupListIndex = [0, 1]\<rparr>] \<and>
   reverse_cmap (init font_shadowed_cycle) ''g'' = None \<and>
   input_from_name (Suc (Suc (Suc 0))) (init font_shadowed_cycle) ''g'' [] False =
     Inr (Some ([''test''], [65])) \<and>
   input_from_name (Suc 0) (init font_shadowed_cycle) ''A'' [] False = Inr (Some ([], [65]))"
  by (simp add: init_def build_reverse_cmap_def font_shadowed_cycle_def gsub_shadowed_cycle_def
      unichr_def maxunicode_def)

text \<open>
  C10 (amended). The resolver detects no cycle. Resolving a glyph without code point
  resolves in turn the glyphs of the first rule that emits it: the input glyph of a
  Type 1 entry (the two glyphs of the first usable Type 6 candidate when no feature
  record lists the lookup) or the components of a Type 4 ligature record. When every
  glyph of a set has among these glyphs one of the set, after glyphs that resolve, no
  glyph of the set is ever resolved: at every recursion depth the call ends in the
  interpreter's recursion limit. The simplest case is a Type 1 entry that maps a glyph
  without code point to itself, as the first rule that emits it, in a lookup that a
  feature record lists.
\<close>

theorem cyclic_rules_never_return:
  assumes closed: "\<forall>g \<in> S. \<exists>pre g' post. nested_glyphs self g = pre @ g' # post \<and> g' \<in> S \<and>
             (\<forall>p \<in> set pre. \<forall>fs. \<exists>m r. input_from_name m self p fs False = Inr (Some r))"
    and "g \<in> S"
  shows "input_from_name n self g fs pad = Inl RecursionDepthExceeded"
  using assms(2)
proof (induction n arbitrary: g fs pad rule: less_induct)
  case (less n)
  from closed less.prems obtain pre g' post where
    plan: "nested_glyphs self g = pre @ g' # post" and g': "g' \<in> S" and
    pre: "\<forall>p \<in> set pre. \<forall>fs. \<exists>m r. input_from_name m self p fs False = Inr (Some r)"
    by blast
  have seq: "sequence_from_glyph_names k self (pre @ g' # post) fs' = Inl RecursionDepthExceeded"
    if "k < n" for k fs'
  proof (cases k)
    case 0
    then show ?thesis by simp
  next
    case (Suc i)
    with that have "i < n" by simp
    then have inner: "\<forall>fs. input_from_name i self g' fs False = Inl RecursionDepthExceeded"
      using less.IH g' by blast
    have "\<forall>p \<in> set pre. \<forall>fs. (\<exists>x. input_from_name i self p fs False = Inr (Some x)) \<or>
            input_from_name i self p fs False = Inl RecursionDepthExceeded"
      using pre resolves_or_exceeds by blast
    then have "sequence_loop (\<lambda>g fs. input_from_name i self g fs False) (pre @ g' # post) fs' [] =
               Inl RecursionDepthExceeded"
      using inner by (intro sequence_loop_exceeds) auto
    with Suc show ?thesis by simp
  qed
  show ?case
  proof (cases n)
    case 0
    then show ?thesis by simp
  next
    case (Suc k)
    from plan have ne: "nested_glyphs self g \<noteq> []" by simp
    from ne obtain table where t: "reverse_cmap self g = None" "GSUB (font self) = Some table"
      by (auto simp: nested_glyphs_def split: option.splits)
    from ne t obtain lookups where l: "LookupList table = Some lookups"
      by (auto simp: nested_glyphs_def split: option.splits)
    from ne t l obtain rl where rl: "lookup_loop 0 lookups g = Some rl"
      by (auto simp: nested_glyphs_def split: option.splits)
    have unfold: "input_from_name n self g fs pad =
                  (case rl of
                     SingleRule a idx \<Rightarrow> input_with_context k self table a idx fs
                   | LigatureRule gs \<Rightarrow> sequence_from_glyph_names k self gs fs)"
      using Suc t l rl by simp
    show ?thesis
    proof (cases rl)
      case (LigatureRule gs)
      with plan t l rl have "gs = pre @ g' # post" by (simp add: nested_glyphs_def)
      with unfold LigatureRule seq [of k fs] Suc show ?thesis by simp
    next
      case (SingleRule a idx)
      show ?thesis
      proof (cases k)
        case 0
        with unfold SingleRule show ?thesis by simp
      next
        case (Suc j)
        show ?thesis
        proof (cases "feature_loop (FeatureList table) idx")
          case (Some tag)
          with plan t l rl SingleRule have "[a] = pre @ g' # post" by (simp add: nested_glyphs_def)
          then have "a = g'" by (cases pre) auto
          moreover have "j < n" using Suc \<open>n = Suc k\<close> by simp
          ultimately have "input_from_name j self a (fs @ [tag]) False = Inl RecursionDepthExceeded"
            using less.IH g' by blast
          with unfold SingleRule Suc Some show ?thesis by simp
        next
          case None
          with plan t l rl SingleRule obtain gs where
            c: "chain_lookups lookups a idx = Inr (Some gs)" and "gs = pre @ g' # post"
            by (auto simp: nested_glyphs_def split: sum.splits option.splits)
          moreover have "j < n" using Suc \<open>n = Suc k\<close> by simp
          ultimately have "sequence_from_glyph_names j self gs fs = Inl RecursionDepthExceeded"
            using seq by blast
          with unfold SingleRule Suc None l c show ?thesis by simp
        qed
      qed
    qed
  qed
qed

theorem cyclic_rules_never_return_witness:
  "nested_glyphs (init font_cycle) ''g'' = [''g''] \<and>
   input_from_name 1000 (init font_cycle) ''g'' [] False = Inl RecursionDepthExceeded \<and>
   nested_glyphs (init font_two_cycle) ''p'' = [''q''] \<and>
   nested_glyphs (init font_two_cycle) ''q'' = [''p''] \<and>
   input_from_name 1000 (init font_two_cycle) ''q'' [] False = Inl RecursionDepthExceeded \<and>
   nested_glyphs (init font_liga_cycle) ''f_f'' = [''f'', ''f_f''] \<and>
   input_from_name 1000 (init font_liga_cycle) ''f_f'' [] False = Inl RecursionDepthExceeded \<and>
   nested_glyphs (init font_chain_cycle) ''U'' = [''Y'', ''U''] \<and>
   input_from_name 1000 (init font_chain_cycle) ''U'' [] False = Inl RecursionDepthExceeded"
proof -
  have p1: "nested_glyphs (init font_cycle) ''g'' = [] @ ''g'' # []"
    by (simp add: nested_glyphs_def init_def build_reverse_cmap_def font_cycle_def gsub_cycle_def)
  have "\<exists>pre g' post. nested_glyphs (init font_cycle) ''g'' = pre @ g' # post \<and> g' \<in> {''g''} \<and>
          (\<forall>p \<in> set pre. \<forall>fs. \<exists>m r. input_from_name m (init font_cycle) p fs False = Inr (Some r))"
    by (rule exI [of _ "[]"], rule exI [of _ "''g''"], rule exI [of _ "[]"]) (simp add: p1)
  then have c1: "\<forall>g \<in> {''g''}. \<exists>pre g' post.
            nested_glyphs (init font_cycle) g = pre @ g' # post \<and> g' \<in> {''g''} \<and>
            (\<forall>p \<in> set pre. \<forall>fs. \<exists>m r. input_from_name m (init font_cycle) p fs False = Inr (Some r))"
    by simp
  have m1: "''g'' \<in> {''g''}" by simp
  have r1: "input_from_name 1000 (init font_cycle) ''g'' [] False = Inl RecursionDepthExceeded"
    using c1 m1 by (rule cyclic_rules_never_return)
  have p2: "nested_glyphs (init font_two_cycle) ''p'' = [] @ ''q'' # []"
    by (simp add: nested_glyphs_def init_def build_reverse_cmap_def font_two_cycle_def
        gsub_two_cycle_def)
  have q2: "nested_glyphs (init font_two_cycle) ''q'' = [] @ ''p'' # []"
    by (simp add: nested_glyphs_def init_def build_reverse_cmap_def font_two_cycle_def
        gsub_two_cycle_def)
  have a2: "\<exists>pre g' post. nested_glyphs (init font_two_cycle) ''p'' = pre @ g' # post \<and>
          g' \<in> {''p'', ''q''} \<and>
          (\<forall>p \<in> set pre. \<forall>fs. \<exists>m r. input_from_name m (init font_two_cycle) p fs False = Inr (Some r))"
    by (rule exI [of _ "[]"], rule exI [of _ "''q''"], rule exI [of _ "[]"]) (simp add: p2)
  have b2: "\<exists>pre g' post. nested_glyphs (init font_two_cycle) ''q'' = pre @ g' # post \<and>
          g' \<in> {''p'', ''q''} \<and>
          (\<forall>p \<in> set pre. \<forall>fs. \<exists>m r. input_from_name m (init font_two_cycle) p fs False = Inr (Some r))"
    by (rule exI [of _ "[]"], rule exI [of _ "''p''"], rule exI [of _ "[]"]) (simp add: q2)
  from a2 b2 have c2: "\<forall>g \<in> {''p'', ''q''}. \<exists>pre g' post.
            nested_glyphs (init font_two_cycle) g = pre @ g' # post \<and> g' \<in> {''p'', ''q''} \<and>
            (\<forall>p \<in> set pre. \<forall>fs. \<exists>m r. input_from_name m (init font_two_cycle) p fs False = Inr (Some r))"
    by simp
  have m2: "''q'' \<in> {''p'', ''q''}" by simp
  have r2: "input_from_name 1000 (init font_two_cycle) ''q'' [] False = Inl RecursionDepthExceeded"
    using c2 m2 by (rule cyclic_rules_never_return)
  have p3: "nested_glyphs (init font_liga_cycle) ''f_f'' = [''f''] @ ''f_f'' # []"
    by (simp add: nested_glyphs_def init_def build_reverse_cmap_def font_liga_cycle_def
        gsub_liga_cycle_def)
  have f3: "input_from_name (Suc 0) (init font_liga_cycle) ''f'' fs False = Inr (Some (fs, [102]))"
    for fs
    by (simp add: init_def build_reverse_cmap_def font_liga_cycle_def unichr_def maxunicode_def)
  have "\<exists>pre g' post. nested_glyphs (init font_liga_cycle) ''f_f'' = pre @ g' # post \<and>
          g' \<in> {''f_f''} \<and>
          (\<forall>p \<in> set pre. \<forall>fs. \<exists>m r. input_from_name m (init font_liga_cycle) p fs False = Inr (Some r))"
  proof (rule exI [of _ "[''f'']"], rule exI [of _ "''f_f''"], rule exI [of _ "[]"], intro conjI)
    show "nested_glyphs (init font_liga_cycle) ''f_f'' = [''f''] @ ''f_f'' # []" by (rule p3)
    show "''f_f'' \<in> {''f_f''}" by simp
    show "\<forall>p \<in> set [''f'']. \<forall>fs. \<exists>m r.
            input_from_name m (init font_liga_cycle) p fs False = Inr (Some r)"
    proof (intro ballI allI)
      fix p :: glyph and fs :: features
      assume "p \<in> set [''f'']"
      then have "p = ''f''" by simp
      with f3 [of fs] show "\<exists>m r. input_from_name m (init font_liga_cycle) p fs False = Inr (Some r)"
        by blast
    qed
  qed
  then have c3: "\<forall>g \<in> {''f_f''}. \<exists>pre g' post.
            nested_glyphs (init font_liga_cycle) g = pre @ g' # post \<and> g' \<in> {''f_f''} \<and>
            (\<forall>p \<in> set pre. \<forall>fs. \<exists>m r. input_from_name m (init font_liga_cycle) p fs False = Inr (Some r))"
    by simp
  have m3: "''f_f'' \<in> {''f_f''}" by simp
  have r3: "input_from_name 1000 (init font_liga_cycle) ''f_f'' [] False =
            Inl RecursionDepthExceeded"
    using c3 m3 by (rule cyclic_rules_never_return)
  have p4: "nested_glyphs (init font_chain_cycle) ''U'' = [''Y''] @ ''U'' # []"
    by (simp add: nested_glyphs_def init_def build_reverse_cmap_def font_chain_cycle_def
        gsub_chain_cycle_def st_back_def)
  have f4: "input_from_name (Suc 0) (init font_chain_cycle) ''Y'' fs False = Inr (Some (fs, [89]))"
    for fs
    by (simp add: init_def build_reverse_cmap_def font_chain_cycle_def unichr_def maxunicode_def)
  have "\<exists>pre g' post. nested_glyphs (init font_chain_cycle) ''U'' = pre @ g' # post \<and>
          g' \<in> {''U''} \<and>
          (\<forall>p \<in> set pre. \<forall>fs. \<exists>m r. input_from_name m (init font_chain_cycle) p fs False = Inr (Some r))"
  proof (rule exI [of _ "[''Y'']"], rule exI [of _ "''U''"], rule exI [of _ "[]"], intro conjI)
    show "nested_glyphs (init font_chain_cycle) ''U'' = [''Y''] @ ''U'' # []" by (rule p4)
    show "''U'' \<in> {''U''}" by simp
    show "\<forall>p \<in> set [''Y'']. \<forall>fs. \<exists>m r.
            input_from_name m (init font_chain_cycle) p fs False = Inr (Some r)"
    proof (intro ballI allI)
      fix p :: glyph and fs :: features
      assume "p \<in> set [''Y'']"
      then have "p = ''Y''" by simp
      with f4 [of fs] show "\<exists>m r. input_from_name m (init font_chain_cycle) p fs False = Inr (Some r)"
        by blast
    qed
  qed
  then have c4: "\<forall>g \<in> {''U''}. \<exists>pre g' post.
            nested_glyphs (init font_chain_cycle) g = pre @ g' # post \<and> g' \<in> {''U''} \<and>
            (\<forall>p \<in> set pre. \<forall>fs. \<exists>m r. input_from_name m (init font_chain_cycle) p fs False = Inr (Some r))"
    by simp
  have m4: "''U'' \<in> {''U''}" by simp
  have r4: "input_from_name 1000 (init font_chain_cycle) ''U'' [] False =
            Inl RecursionDepthExceeded"
    using c4 m4 by (rule cyclic_rules_never_return)
  from p1 r1 p2 q2 r2 p3 r3 p4 r4 show ?thesis by simp
qed

text \<open>
  C2 (as stated). A font whose GSUB table contains a Type 4 subtable with a ligature
  record that maps the components A, C to the ligature glyph L, where L has no code
  point and A and C have one, would always resolve L to the texts of A and C in
  sequence. The code returns at the first rule that emits L: in the font below an
  earlier single substitution emits the ligature glyph from X.
\<close>

theorem ligature_counterexample:
  "LookupList gsub_liga_shadowed =
     Some [SingleSubst [[(''X'', ''f_i'')]],
           LigatureSubst [[(''f'', [\<lparr>LigGlyph = ''f_i'', Component = [''i'']\<rparr>])]]] \<and>
   reverse_cmap (init font_liga_shadowed) ''f_i'' = None \<and>
   reverse_cmap (init font_liga_shadowed) ''f'' = Some 102 \<and>
   reverse_cmap (init font_liga_shadowed) ''i'' = Some 105 \<and>
   input_from_name (Suc (Suc (Suc 0))) (init font_liga_shadowed) ''f_i'' [] False =
     Inr (Some ([''smcp''], [88])) \<and>
   snd (the (projr (input_from_name (Suc (Suc (Suc 0))) (init font_liga_shadowed) ''f_i'' [] False)))
     \<noteq> [102, 105]"
  by (simp add: init_def build_reverse_cmap_def font_liga_shadowed_def gsub_liga_shadowed_def
      unichr_def maxunicode_def)

text \<open>
  C2 (amended). When the ligature record with first component A and remaining
  components [C] is the first rule, in table order, that emits the ligature glyph L (no
  earlier lookup, no earlier subtable of the lookup, no earlier item and no earlier
  record of the item emits L), L has no code point and A and C have direct Unicode
  hits, the resolver returns for L the features it was given and the text of A followed
  by the text of C: the sequence [A, C] is resolved element by element and the texts
  are concatenated in order.
\<close>

theorem ligature_first_rule:
  assumes "reverse_cmap self L = None"
    and "GSUB (font self) = Some table"
    and "LookupList table =
           Some (pre @ LigatureSubst (spre @ (ipre @ (A, lpre @ lig # lpost) # ipost) # spost) # post)"
    and "LigGlyph lig = L"
    and "Component lig = [C]"
    and "\<forall>lk \<in> set pre. \<not> lookup_emits lk L"
    and "\<forall>st \<in> set spre. \<not> ligature_emits st L"
    and "\<not> ligature_emits ipre L"
    and "\<forall>l \<in> set lpre. LigGlyph l \<noteq> L"
    and "reverse_cmap self A = Some a"
    and "a \<le> maxunicode"
    and "reverse_cmap self C = Some c"
    and "c \<le> maxunicode"
  shows "input_from_name (Suc (Suc (Suc n))) self L fs pad = Inr (Some (fs, [a] @ [c]))"
proof -
  have "lookup_loop 0
          (pre @ LigatureSubst (spre @ (ipre @ (A, lpre @ lig # lpost) # ipost) # spost) # post) L =
        Some (LigatureRule (A # Component lig))"
    using assms(6-9,4) by (rule lookup_loop_ligature_first)
  then have "input_from_name (Suc (Suc (Suc n))) self L fs pad =
             sequence_from_glyph_names (Suc (Suc n)) self [A, C] fs"
    using assms(1-3,5) by simp
  also have "\<dots> = Inr (Some (fs, [a] @ [c]))"
    using assms(10-13) by (rule sequence_two_direct_hits)
  finally show ?thesis .
qed

theorem ligature_first_rule_witness:
  "reverse_cmap (init font_liga) ''f_i'' = None \<and>
   reverse_cmap (init font_liga) ''f'' = Some 102 \<and>
   reverse_cmap (init font_liga) ''i'' = Some 105 \<and>
   input_from_name (Suc (Suc (Suc 0))) (init font_liga) ''f_i'' [] False =
     Inr (Some ([], [102, 105]))"
proof -
  have 1: "reverse_cmap (init font_liga) ''f_i'' = None"
    by (simp add: init_def build_reverse_cmap_def font_liga_def)
  have 2: "GSUB (font (init font_liga)) = Some gsub_liga"
    by (simp add: init_def font_liga_def)
  have 3: "LookupList gsub_liga =
             Some ([] @ LigatureSubst ([] @ ([] @
               (''f'', [] @ \<lparr>LigGlyph = ''f_i'', Component = [''i'']\<rparr> # []) # []) # []) # [])"
    by (simp add: gsub_liga_def)
  have 4: "LigGlyph \<lparr>LigGlyph = ''f_i'', Component = [''i'']\<rparr> = ''f_i''" by simp
  have 5: "Component \<lparr>LigGlyph = ''f_i'', Component = [''i'']\<rparr> = [''i'']" by simp
  have 6: "\<forall>lk \<in> set []. \<not> lookup_emits lk ''f_i''" by simp
  have 7: "\<forall>st \<in> set []. \<not> ligature_emits st ''f_i''" by simp
  have 8: "\<not> ligature_emits [] ''f_i''" by (simp add: ligature_emits_def)
  have 9: "\<forall>l \<in> set ([] :: ligature list). LigGlyph l \<noteq> ''f_i''" by simp
  have 10: "reverse_cmap (init font_liga) ''f'' = Some 102"
    by (simp add: init_def build_reverse_cmap_def font_liga_def)
  have 11: "(102::nat) \<le> maxunicode" by (simp add: maxunicode_def)
  have 12: "reverse_cmap (init font_liga) ''i'' = Some 105"
    by (simp add: init_def build_reverse_cmap_def font_liga_def)
  have 13: "(105::nat) \<le> maxunicode" by (simp add: maxunicode_def)
  show ?thesis
    using ligature_first_rule [OF 1 2 3 4 5 6 7 8 9 10 11 12 13, of 0 "[]" False] 1 10 12
    by simp
qed

text \<open>
  C8 (as stated). When an element of the sequence fails to resolve,
  \<^verbatim>\<open>_sequence_from_glyph_names\<close> would fail with an error that carries the offending
  lookup index. The method has no lookup index at hand: the failure is the TypeError of
  unpacking \<^verbatim>\<open>None\<close>, which carries none.
\<close>

theorem sequence_element_counterexample:
  "input_from_name (Suc 0) (init font_plain) ''x'' [] False = Inr None \<and>
   sequence_from_glyph_names (Suc (Suc 0)) (init font_plain) [''x''] [] = Inl NoneNotIterable \<and>
   lookup_index_of NoneNotIterable = None"
  by (simp add: init_def build_reverse_cmap_def font_plain_def)

text \<open>
  C8 (amended). When the elements before some element resolve and that element yields
  no result, \<^verbatim>\<open>_sequence_from_glyph_names\<close> fails hard: it raises the TypeError of
  unpacking \<^verbatim>\<open>None\<close>, which carries no lookup index, instead of returning absence.
  When all elements resolve, the features returned for an element are the features
  argument for the next one, and the texts are concatenated in order.
\<close>

theorem sequence_element_fails:
  "(sequence_from_glyph_names (Suc n) self pre fs = Inr (Some (fs', t)) \<and>
    input_from_name n self g fs' False = Inr None \<longrightarrow>
      sequence_from_glyph_names (Suc n) self (pre @ g # post) fs = Inl NoneNotIterable \<and>
      lookup_index_of NoneNotIterable = None) \<and>
   (input_from_name n self g fs False = Inr (Some (fs1, t1)) \<and>
    sequence_from_glyph_names (Suc n) self gs fs1 = Inr (Some (fs2, t2)) \<longrightarrow>
      sequence_from_glyph_names (Suc n) self (g # gs) fs = Inr (Some (fs2, t1 @ t2)))"
proof (intro conjI impI)
  assume a: "sequence_from_glyph_names (Suc n) self pre fs = Inr (Some (fs', t)) \<and>
             input_from_name n self g fs' False = Inr None"
  then have "sequence_loop (\<lambda>g fs'. input_from_name n self g fs' False) pre fs [] =
             Inr (Some (fs', t))"
    by simp
  then have "sequence_loop (\<lambda>g fs'. input_from_name n self g fs' False) (pre @ g # post) fs [] =
             sequence_loop (\<lambda>g fs'. input_from_name n self g fs' False) (g # post) fs' [t]"
    by (rule sequence_loop_append)
  with a show "sequence_from_glyph_names (Suc n) self (pre @ g # post) fs = Inl NoneNotIterable"
    by simp
next
  show "lookup_index_of NoneNotIterable = None" by simp
next
  assume a: "input_from_name n self g fs False = Inr (Some (fs1, t1)) \<and>
             sequence_from_glyph_names (Suc n) self gs fs1 = Inr (Some (fs2, t2))"
  then have "sequence_loop (\<lambda>g fs'. input_from_name n self g fs' False) gs fs1 [] =
             Inr (Some (fs2, t2))"
    by simp
  then have "sequence_loop (\<lambda>g fs'. input_from_name n self g fs' False) gs fs1 [t1] =
             Inr (Some (fs2, t1 @ t2))"
    using sequence_loop_acc [of "\<lambda>g fs'. input_from_name n self g fs' False" gs fs1 "[t1]"]
    by simp
  with a show "sequence_from_glyph_names (Suc n) self (g # gs) fs = Inr (Some (fs2, t1 @ t2))"
    by simp
qed

theorem sequence_element_fails_witness:
  "sequence_from_glyph_names (Suc (Suc 0)) (init font_plain) [''A''] [] = Inr (Some ([], [65])) \<and>
   input_from_name (Suc 0) (init font_plain) ''x'' [] False = Inr None \<and>
   sequence_from_glyph_names (Suc (Suc 0)) (init font_plain) ([''A''] @ ''x'' # [''K'']) [] =
     Inl NoneNotIterable \<and>
   input_from_name (Suc (Suc (Suc 0))) (init font_single) ''B'' [] False =
     Inr (Some ([''test''], [65])) \<and>
   sequence_from_glyph_names (Suc (Suc (Suc (Suc 0)))) (init font_single) [''A''] [''test''] =
     Inr (Some ([''test''], [65])) \<and>
   sequence_from_glyph_names (Suc (Suc (Suc (Suc 0)))) (init font_single) (''B'' # [''A'']) [] =
     Inr (Some ([''test''], [65] @ [65]))"
proof -
  have 1: "sequence_from_glyph_names (Suc (Suc 0)) (init font_plain) [''A''] [] =
           Inr (Some ([], [65]))"
    by (simp add: init_def build_reverse_cmap_def font_plain_def unichr_def maxunicode_def)
  have 2: "input_from_name (Suc 0) (init font_plain) ''x'' [] False = Inr None"
    by (simp add: init_def build_reverse_cmap_def font_plain_def)
  have 3: "input_from_name (Suc (Suc (Suc 0))) (init font_single) ''B'' [] False =
           Inr (Some ([''test''], [65]))"
    by (simp add: init_def build_reverse_cmap_def font_single_def gsub_single_def
        unichr_def maxunicode_def)
  have 4: "sequence_from_glyph_names (Suc (Suc (Suc (Suc 0)))) (init font_single) [''A''] [''test''] =
           Inr (Some ([''test''], [65]))"
    by (simp add: init_def build_reverse_cmap_def font_single_def unichr_def maxunicode_def)
  have a: "sequence_from_glyph_names (Suc (Suc 0)) (init font_plain) ([''A''] @ ''x'' # [''K'']) [] =
           Inl NoneNotIterable"
    using sequence_element_fails
      [of "Suc 0" "init font_plain" "[''A'']" "[]" "[]" "[65]" "''x''" "[''K'']"] 1 2
    by blast
  have b: "sequence_from_glyph_names (Suc (Suc (Suc (Suc 0)))) (init font_single) (''B'' # [''A'']) [] =
           Inr (Some ([''test''], [65] @ [65]))"
    using sequence_element_fails
      [where n = "Suc (Suc (Suc 0))" and self = "init font_single" and g = "''B''" and fs = "[]"
         and ?fs1.0 = "[''test'']" and ?t1.0 = "[65]" and gs = "[''A'']"
         and ?fs2.0 = "[''test'']" and ?t2.0 = "[65]"] 3 4
    by blast
  from 1 2 3 4 a b show ?thesis by blast
qed



text \<open>
  C4 (as stated). Whenever a substitution record of a Type 6 subtable targets a lookup
  index that no feature record lists, and the subtable declares lookahead context,
  \<^verbatim>\<open>_input_with_context\<close> would resolve the trigger glyph followed by the first
  lookahead glyph of that subtable. The code takes the first such subtable in table
  order: in the font below the second subtable has lookahead Y, the first has lookahead
  X, and the text is that of T and X.
\<close>

theorem chain_context_counterexample:
  "LookupList (gsub_chain [st_ahead, st_ahead_Y]) =
     Some [SingleSubst [[(''T'', ''U'')]], ChainContextSubst [st_ahead, st_ahead_Y]] \<and>
   FeatureList (gsub_chain [st_ahead, st_ahead_Y]) =
     [\<lparr>FeatureTag = ''calt'', FeatureLookupListIndex = [1]\<rparr>] \<and>
   SubstLookupRecord st_ahead_Y = [\<lparr>SequenceIndex = 0, LookupListIndex = 0\<rparr>] \<and>
   LookAheadCoverage st_ahead_Y = [\<lparr>glyphs = [''Y'']\<rparr>] \<and>
   reverse_cmap (init (font_chain [st_ahead, st_ahead_Y])) ''T'' = Some 84 \<and>
   reverse_cmap (init (font_chain [st_ahead, st_ahead_Y])) ''Y'' = Some 89 \<and>
   input_with_context (Suc (Suc (Suc 0))) (init (font_chain [st_ahead, st_ahead_Y]))
     (gsub_chain [st_ahead, st_ahead_Y]) ''T'' 0 [] = Inr (Some ([], [84, 88])) \<and>
   input_with_context (Suc (Suc (Suc 0))) (init (font_chain [st_ahead, st_ahead_Y]))
     (gsub_chain [st_ahead, st_ahead_Y]) ''T'' 0 [] \<noteq> Inr (Some ([], [84, 89]))"
  by (simp add: init_def build_reverse_cmap_def font_chain_def gsub_chain_def st_ahead_def
      st_ahead_Y_def unichr_def maxunicode_def)

text \<open>
  C4 (amended). Let no feature record list the lookup index k, and let a Type 6 subtable
  target k such that every Type 6 subtable before it, in table order, either does not
  target k or has both contexts empty (those candidates are skipped). If the subtable
  declares lookahead context, \<^verbatim>\<open>_input_with_context\<close> resolves the sequence of the
  trigger glyph and the first lookahead glyph, and when both have direct Unicode hits
  the text is the text of the trigger followed by the text of that glyph. Otherwise, if
  it declares backtrack context, the sequence is the first backtrack glyph and the
  trigger. Otherwise the subtable is skipped: the result is that for the table without
  it.
\<close>

theorem chain_context_first_candidate:
  assumes "\<forall>f \<in> set (FeatureList table). k \<notin> set (FeatureLookupListIndex f)"
    and "LookupList table = Some (pre @ ChainContextSubst (spre @ st # spost) # post)"
    and "\<forall>lk \<in> set pre. \<not> lookup_usable lk k"
    and "\<forall>s \<in> set spre. \<not> usable_candidate s k"
    and "k \<in> LookupListIndex ` set (SubstLookupRecord st)"
  shows "(LookAheadCoverage st = la # las \<and> glyphs la = x # xs \<longrightarrow>
            input_with_context (Suc n) self table g k fs =
              sequence_from_glyph_names n self [g, x] fs \<and>
            (reverse_cmap self g = Some cg \<and> cg \<le> maxunicode \<and>
             reverse_cmap self x = Some cx \<and> cx \<le> maxunicode \<longrightarrow>
               input_with_context (Suc (Suc (Suc m))) self table g k fs =
                 Inr (Some (fs, [cg] @ [cx])))) \<and>
         (LookAheadCoverage st = [] \<and> BacktrackCoverage st = bt # bts \<and> glyphs bt = y # ys \<longrightarrow>
            input_with_context (Suc n) self table g k fs =
              sequence_from_glyph_names n self [y, g] fs) \<and>
         (LookAheadCoverage st = [] \<and> BacktrackCoverage st = [] \<longrightarrow>
            input_with_context (Suc n) self table g k fs =
              input_with_context (Suc n) self
                (table\<lparr>LookupList := Some (pre @ ChainContextSubst (spre @ spost) # post)\<rparr>) g k fs)"
proof -
  have nofeat: "feature_loop (FeatureList table) k = None"
    using assms(1) by (simp add: feature_loop_None)
  have skip: "chain_lookups (pre @ ChainContextSubst (spre @ st # spost) # post) g k =
              (case sub_lookup_loop st (SubstLookupRecord st) g k of
                 Inl e \<Rightarrow> Inl e
               | Inr (Some gs) \<Rightarrow> Inr (Some gs)
               | Inr None \<Rightarrow> chain_lookups (ChainContextSubst spost # post) g k)"
    using chain_lookups_skip [OF assms(3)] chain_subtables_skip [OF assms(4)]
    by (simp split: sum.splits option.splits)
  have ahead: "input_with_context (Suc n') self table g k fs =
               sequence_from_glyph_names n' self [g, x] fs"
    if "LookAheadCoverage st = la # las" and "glyphs la = x # xs" for n'
    using sub_lookup_loop_lookahead [OF assms(5) that, of g] skip nofeat assms(2) by simp
  have behind: "input_with_context (Suc n) self table g k fs =
              sequence_from_glyph_names n self [y, g] fs"
    if "LookAheadCoverage st = []" and "BacktrackCoverage st = bt # bts" and "glyphs bt = y # ys"
    using sub_lookup_loop_backtrack [OF assms(5) that, of g] skip nofeat assms(2) by simp
  have none: "input_with_context (Suc n) self table g k fs =
              input_with_context (Suc n) self
                (table\<lparr>LookupList := Some (pre @ ChainContextSubst (spre @ spost) # post)\<rparr>) g k fs"
    if "LookAheadCoverage st = []" and "BacktrackCoverage st = []"
  proof -
    have "\<not> usable_candidate st k"
      using that by (simp add: usable_candidate_def)
    then have "sub_lookup_loop st (SubstLookupRecord st) g k = Inr None"
      by (rule sub_lookup_loop_unusable)
    with skip
    have "chain_lookups (pre @ ChainContextSubst (spre @ st # spost) # post) g k =
          chain_lookups (pre @ ChainContextSubst (spre @ spost) # post) g k"
      using chain_lookups_skip [OF assms(3)] chain_subtables_skip [OF assms(4)] by simp
    then show ?thesis
      using nofeat assms(2) by simp
  qed
  have both: "input_with_context (Suc (Suc (Suc m))) self table g k fs =
              Inr (Some (fs, [cg] @ [cx]))"
    if "LookAheadCoverage st = la # las" and "glyphs la = x # xs"
      and "reverse_cmap self g = Some cg" and "cg \<le> maxunicode"
      and "reverse_cmap self x = Some cx" and "cx \<le> maxunicode"
    using ahead [OF that(1,2), of "Suc (Suc m)"] sequence_two_direct_hits [OF that(3-6), of m fs]
    by simp
  from ahead behind none both show ?thesis by blast
qed

theorem chain_context_first_candidate_witness:
  "input_with_context (Suc (Suc (Suc 0))) (init (font_chain [st_none, st_ahead]))
     (gsub_chain [st_none, st_ahead]) ''T'' 0 [] = Inr (Some ([], [84] @ [88])) \<and>
   input_with_context (Suc (Suc (Suc 0))) (init (font_chain [st_none, st_back]))
     (gsub_chain [st_none, st_back]) ''T'' 0 [] = Inr (Some ([], [89, 84])) \<and>
   input_with_context (Suc (Suc (Suc 0))) (init (font_chain [st_none, st_ahead]))
     (gsub_chain [st_none, st_ahead]) ''T'' 0 [] =
   input_with_context (Suc (Suc (Suc 0))) (init (font_chain [st_none, st_ahead]))
     (gsub_chain [st_ahead]) ''T'' 0 []"
proof -
  let ?single = "SingleSubst [[(''T'', ''U'')]]"
  have f: "\<forall>f \<in> set (FeatureList (gsub_chain sts)). 0 \<notin> set (FeatureLookupListIndex f)" for sts
    by (simp add: gsub_chain_def)
  have l1: "LookupList (gsub_chain [st_none, st_ahead]) =
            Some ([?single] @ ChainContextSubst ([st_none] @ st_ahead # []) # [])"
    by (simp add: gsub_chain_def)
  have l2: "LookupList (gsub_chain [st_none, st_back]) =
            Some ([?single] @ ChainContextSubst ([st_none] @ st_back # []) # [])"
    by (simp add: gsub_chain_def)
  have l3: "LookupList (gsub_chain [st_none, st_ahead]) =
            Some ([?single] @ ChainContextSubst ([] @ st_none # [st_ahead]) # [])"
    by (simp add: gsub_chain_def)
  have p: "\<forall>lk \<in> set [?single]. \<not> lookup_usable lk 0" by simp
  have s0: "\<forall>s \<in> set []. \<not> usable_candidate s 0" by simp
  have s1: "\<forall>s \<in> set [st_none]. \<not> usable_candidate s 0"
    by (simp add: usable_candidate_def st_none_def)
  have ta: "0 \<in> LookupListIndex ` set (SubstLookupRecord st_ahead)" by (simp add: st_ahead_def)
  have tb: "0 \<in> LookupListIndex ` set (SubstLookupRecord st_back)" by (simp add: st_back_def)
  have tn: "0 \<in> LookupListIndex ` set (SubstLookupRecord st_none)" by (simp add: st_none_def)
  have rT: "reverse_cmap (init (font_chain sts)) ''T'' = Some 84" for sts
    by (simp add: init_def build_reverse_cmap_def font_chain_def)
  have rX: "reverse_cmap (init (font_chain sts)) ''X'' = Some 88" for sts
    by (simp add: init_def build_reverse_cmap_def font_chain_def)
  have rY: "reverse_cmap (init (font_chain sts)) ''Y'' = Some 89" for sts
    by (simp add: init_def build_reverse_cmap_def font_chain_def)
  have la: "LookAheadCoverage st_ahead = \<lparr>glyphs = [''X'']\<rparr> # [] \<and>
            glyphs \<lparr>glyphs = [''X'']\<rparr> = ''X'' # []"
    by (simp add: st_ahead_def)
  have hits: "reverse_cmap (init (font_chain [st_none, st_ahead])) ''T'' = Some 84 \<and>
              (84::nat) \<le> maxunicode \<and>
              reverse_cmap (init (font_chain [st_none, st_ahead])) ''X'' = Some 88 \<and>
              (88::nat) \<le> maxunicode"
    by (simp add: rT rX maxunicode_def)
  have a: "input_with_context (Suc (Suc (Suc 0))) (init (font_chain [st_none, st_ahead]))
             (gsub_chain [st_none, st_ahead]) ''T'' 0 [] = Inr (Some ([], [84] @ [88]))"
    using chain_context_first_candidate
      [OF f l1 p s1 ta,
       where la = "\<lparr>glyphs = [''X'']\<rparr>" and las = "[]" and x = "''X''" and xs = "[]"
         and self = "init (font_chain [st_none, st_ahead])" and g = "''T''" and cg = 84
         and cx = 88 and m = 0 and fs = "[]"]
      la hits
    by blast
  have bk: "LookAheadCoverage st_back = [] \<and>
            BacktrackCoverage st_back = \<lparr>glyphs = [''Y'']\<rparr> # [] \<and>
            glyphs \<lparr>glyphs = [''Y'']\<rparr> = ''Y'' # []"
    by (simp add: st_back_def)
  have sq: "sequence_from_glyph_names (Suc (Suc 0)) (init (font_chain [st_none, st_back]))
              [''Y'', ''T''] [] = Inr (Some ([], [89, 84]))"
    using sequence_two_direct_hits [of "init (font_chain [st_none, st_back])" "''Y''" 89 "''T''" 84 0 "[]"]
    by (simp only: rT rY) (simp add: maxunicode_def)
  have "input_with_context (Suc (Suc (Suc 0))) (init (font_chain [st_none, st_back]))
          (gsub_chain [st_none, st_back]) ''T'' 0 [] =
        sequence_from_glyph_names (Suc (Suc 0)) (init (font_chain [st_none, st_back]))
          [''Y'', ''T''] []"
    using chain_context_first_candidate
      [OF f l2 p s1 tb,
       where bt = "\<lparr>glyphs = [''Y'']\<rparr>" and bts = "[]" and y = "''Y''" and ys = "[]"
         and self = "init (font_chain [st_none, st_back])" and g = "''T''"
         and n = "Suc (Suc 0)" and fs = "[]"]
      bk
    by blast
  with sq
  have b: "input_with_context (Suc (Suc (Suc 0))) (init (font_chain [st_none, st_back]))
             (gsub_chain [st_none, st_back]) ''T'' 0 [] = Inr (Some ([], [89, 84]))"
    by (simp only:)
  have no: "LookAheadCoverage st_none = [] \<and> BacktrackCoverage st_none = []"
    by (simp add: st_none_def)
  have upd: "gsub_chain [st_none, st_ahead]
               \<lparr>LookupList := Some ([?single] @ ChainContextSubst ([] @ [st_ahead]) # [])\<rparr> =
             gsub_chain [st_ahead]"
    by (simp add: gsub_chain_def)
  have "input_with_context (Suc (Suc (Suc 0))) (init (font_chain [st_none, st_ahead]))
          (gsub_chain [st_none, st_ahead]) ''T'' 0 [] =
        input_with_context (Suc (Suc (Suc 0))) (init (font_chain [st_none, st_ahead]))
          (gsub_chain [st_none, st_ahead]
             \<lparr>LookupList := Some ([?single] @ ChainContextSubst ([] @ [st_ahead]) # [])\<rparr>)
          ''T'' 0 []"
    using chain_context_first_candidate
      [OF f l3 p s0 tn,
       where self = "init (font_chain [st_none, st_ahead])" and g = "''T''"
         and n = "Suc (Suc 0)" and fs = "[]"]
      no
    by blast
  then have c: "input_with_context (Suc (Suc (Suc 0))) (init (font_chain [st_none, st_ahead]))
             (gsub_chain [st_none, st_ahead]) ''T'' 0 [] =
           input_with_context (Suc (Suc (Suc 0))) (init (font_chain [st_none, st_ahead]))
             (gsub_chain [st_ahead]) ''T'' 0 []"
    by (simp only: upd)
  from a b c show ?thesis by blast
qed

text \<open>
  C6 (as stated). Every glyph that \<^verbatim>\<open>all_inputs\<close> resolves would get a text prefixed
  with two spaces exactly when its advance width is zero. Only the direct hit pads: the
  nested calls do not pass \<open>pad\<close> on. Below, B has zero width and is resolved through
  a single substitution; its text is that of A, without spaces.
\<close>

theorem all_inputs_padding_counterexample:
  "getGlyphOrder font_single = [''A'', ''B''] \<and>
   getGlyphSet font_single ''B'' = Some 0 \<and>
   input_from_name (Suc (Suc (Suc 0))) (init font_single) ''B'' [] True =
     Inr (Some ([''test''], [65])) \<and>
   all_inputs (Suc (Suc (Suc 0))) (init font_single) False =
     ([], Inr [([], [65]), ([''test''], [65])])"
  by (simp add: all_inputs_def init_def build_reverse_cmap_def font_single_def gsub_single_def
      unichr_def maxunicode_def)

text \<open>
  C6 (amended). \<^verbatim>\<open>all_inputs\<close> passes \<open>pad = (width == 0)\<close> for each glyph. For every
  glyph of the glyph order with a direct Unicode hit, the sequence it returns holds the
  pair of no features and the glyph's character, after two spaces if and only if the
  advance width of the glyph is zero; so a glyph of non-zero width with a direct hit on
  U+0041 yields the text A without padding.
\<close>

theorem all_inputs_padding:
  assumes "all_inputs (Suc n) self warn = (out, Inr inputs)"
    and "name \<in> set (getGlyphOrder (font self))"
    and "reverse_cmap self name = Some cp"
  shows "\<exists>w. getGlyphSet (font self) name = Some w \<and>
             ([], (if w = 0 then [32, 32] else []) @ [cp]) \<in> set inputs"
proof -
  have some: "input_from_name (Suc n) self name [] p \<noteq> Inr None" for p
    using assms(3) by (simp add: unichr_def)
  have hit: "r = ([], (if p then [32, 32] else []) @ [cp])"
    if "input_from_name (Suc n) self name [] p = Inr (Some r)" for p r
    using that assms(3) by (auto simp: unichr_def split: if_splits)
  from assms(1) have "all_inputs_loop (Suc n) self warn (getGlyphOrder (font self)) [] [] =
                      (out, Inr inputs)"
    by (simp only: all_inputs_def)
  with some hit show ?thesis
    using assms(2) by (rule all_inputs_loop_direct_hit)
qed

theorem all_inputs_padding_witness:
  "all_inputs (Suc 0) (init font_plain) True =
     ([''not tested (unreachable?): x''],
      Inr [([], [65]), ([], [8490]), ([], [32, 32, 769])]) \<and>
   getGlyphSet font_plain ''acute'' = Some 0 \<and>
   ([], [32, 32, 769]) \<in> set [([] :: features, [65]), ([], [8490]), ([], [32, 32, 769 :: nat])] \<and>
   getGlyphSet font_plain ''A'' = Some 600 \<and>
   ([] :: features, [65]) \<in> set [([] :: features, [65]), ([], [8490]), ([], [32, 32, 769 :: nat])]"
proof -
  have ev: "all_inputs (Suc 0) (init font_plain) True =
              ([''not tested (unreachable?): x''],
               Inr [([], [65]), ([], [8490]), ([], [32, 32, 769])])"
    by (simp add: all_inputs_def init_def build_reverse_cmap_def font_plain_def unichr_def
        maxunicode_def)
  have m1: "''acute'' \<in> set (getGlyphOrder (font (init font_plain)))"
    by (simp add: init_def font_plain_def)
  have r1: "reverse_cmap (init font_plain) ''acute'' = Some 769"
    by (simp add: init_def build_reverse_cmap_def font_plain_def)
  have w1: "getGlyphSet font_plain ''acute'' = Some 0" by (simp add: font_plain_def)
  have m2: "''A'' \<in> set (getGlyphOrder (font (init font_plain)))"
    by (simp add: init_def font_plain_def)
  have r2: "reverse_cmap (init font_plain) ''A'' = Some 65"
    by (simp add: init_def build_reverse_cmap_def font_plain_def)
  have w2: "getGlyphSet font_plain ''A'' = Some 600" by (simp add: font_plain_def)
  have f: "font (init font_plain) = font_plain" by (simp add: init_def)
  from all_inputs_padding [OF ev m1 r1] obtain w where
    "getGlyphSet (font (init font_plain)) ''acute'' = Some w" and
    "([], (if w = 0 then [32, 32] else []) @ [769]) \<in>
       set [([] :: features, [65]), ([], [8490]), ([], [32, 32, 769 :: nat])]"
    by blast
  with w1 f have a: "([], [32, 32, 769]) \<in> set [([] :: features, [65]), ([], [8490]), ([], [32, 32, 769 :: nat])]"
    by simp
  from all_inputs_padding [OF ev m2 r2] obtain w' where
    "getGlyphSet (font (init font_plain)) ''A'' = Some w'" and
    "([], (if w' = 0 then [32, 32] else []) @ [65]) \<in>
       set [([] :: features, [65]), ([], [8490]), ([], [32, 32, 769 :: nat])]"
    by blast
  with w2 f have b: "([], [65]) \<in> set [([] :: features, [65]), ([], [8490]), ([], [32, 32, 769 :: nat])]"
    by simp
  from ev w1 a w2 b show ?thesis by blast
qed

text \<open>
  C7. For a glyph absent from the reverse character map the resolver returns no result,
  and raises nothing, when the font has no GSUB table, when the lookup list is absent
  or empty, or when no Type 1 mapping and no Type 4 ligature record of any lookup emits
  the glyph. Such a glyph contributes nothing to the sequence \<^verbatim>\<open>all_inputs\<close>
  returns: the sequence is the one returned for the glyph order without the glyph.
\<close>

theorem unreachable_no_result:
  assumes "reverse_cmap self name = None"
    and "GSUB (font self) = None \<or>
         (\<exists>table. GSUB (font self) = Some table \<and>
            (LookupList table = None \<or> LookupList table = Some [] \<or>
             (\<exists>lookups. LookupList table = Some lookups \<and>
                (\<forall>lk \<in> set lookups. \<not> lookup_emits lk name))))"
  shows "input_from_name (Suc n) self name fs pad = Inr None \<and>
         (all_inputs (Suc n) self warn = (out, Inr inputs) \<longrightarrow>
            snd (all_inputs (Suc n)
                  (self\<lparr>font := (font self)\<lparr>getGlyphOrder :=
                     removeAll name (getGlyphOrder (font self))\<rparr>\<rparr>) warn) = Inr inputs)"
proof (intro conjI impI)
  have rule: "GSUB (font self) = None \<or>
         (\<exists>table. GSUB (font self) = Some table \<and>
            (LookupList table = None \<or>
             (\<exists>lookups. LookupList table = Some lookups \<and>
                (\<forall>lk \<in> set lookups. \<not> lookup_emits lk name))))"
    using assms(2) by auto
  have none: "input_from_name (Suc n) self name fs' p = Inr None" for fs' p
    using assms(1) rule by (rule no_rule_no_result)
  show "input_from_name (Suc n) self name fs pad = Inr None" by (rule none)
  assume a: "all_inputs (Suc n) self warn = (out, Inr inputs)"
  let ?names = "removeAll name (getGlyphOrder (font self))"
  let ?self = "self\<lparr>font := (font self)\<lparr>getGlyphOrder := ?names\<rparr>\<rparr>"
  have 1: "reverse_cmap ?self = reverse_cmap self" by simp
  have 2: "GSUB (font ?self) = GSUB (font self)" by simp
  have 3: "getGlyphSet (font ?self) = getGlyphSet (font self)" by simp
  have 4: "getGlyphOrder (font ?self) = ?names" by simp
  have "all_inputs (Suc n) ?self warn = all_inputs_loop (Suc n) ?self warn ?names [] []"
    by (simp only: all_inputs_def 4)
  also have "\<dots> = all_inputs_loop (Suc n) self warn ?names [] []"
    using 1 2 3 by (rule all_inputs_loop_frame)
  finally have eq: "all_inputs (Suc n) ?self warn =
                    all_inputs_loop (Suc n) self warn ?names [] []" .
  from a have "all_inputs_loop (Suc n) self warn (getGlyphOrder (font self)) [] [] =
               (out, Inr inputs)"
    by (simp only: all_inputs_def)
  with none have "snd (all_inputs_loop (Suc n) self warn ?names [] []) = Inr inputs"
    by (rule all_inputs_loop_remove)
  with eq show "snd (all_inputs (Suc n) ?self warn) = Inr inputs" by simp
qed

theorem unreachable_no_result_witness:
  "reverse_cmap (init font_plain) ''x'' = None \<and>
   GSUB (font (init font_plain)) = None \<and>
   input_from_name (Suc 0) (init font_plain) ''x'' [] False = Inr None \<and>
   all_inputs (Suc 0) (init font_plain) False =
     ([], Inr [([], [65]), ([], [8490]), ([], [32, 32, 769])]) \<and>
   snd (all_inputs (Suc 0)
         (init font_plain\<lparr>font := (font (init font_plain))\<lparr>getGlyphOrder :=
            removeAll ''x'' (getGlyphOrder (font (init font_plain)))\<rparr>\<rparr>) False) =
     Inr [([], [65]), ([], [8490]), ([], [32, 32, 769])] \<and>
   reverse_cmap (init font_single) ''Z'' = None \<and>
   input_from_name (Suc 0) (init font_single) ''Z'' [] False = Inr None"
proof -
  have 1: "reverse_cmap (init font_plain) ''x'' = None"
    by (simp add: init_def build_reverse_cmap_def font_plain_def)
  have g: "GSUB (font (init font_plain)) = None"
    by (simp add: init_def font_plain_def)
  then have 2: "GSUB (font (init font_plain)) = None \<or>
         (\<exists>table. GSUB (font (init font_plain)) = Some table \<and>
            (LookupList table = None \<or> LookupList table = Some [] \<or>
             (\<exists>lookups. LookupList table = Some lookups \<and>
                (\<forall>lk \<in> set lookups. \<not> lookup_emits lk ''x''))))"
    by (rule disjI1)
  have ev: "all_inputs (Suc 0) (init font_plain) False =
              ([], Inr [([], [65]), ([], [8490]), ([], [32, 32, 769])])"
    by (simp add: all_inputs_def init_def build_reverse_cmap_def font_plain_def unichr_def
        maxunicode_def)
  have 3: "reverse_cmap (init font_single) ''Z'' = None"
    by (simp add: init_def build_reverse_cmap_def font_single_def)
  have "GSUB (font (init font_single)) = Some gsub_single \<and>
        LookupList gsub_single = Some [SingleSubst [[(''A'', ''B'')]]] \<and>
        (\<forall>lk \<in> set [SingleSubst [[(''A'', ''B'')]]]. \<not> lookup_emits lk ''Z'')"
    by (simp add: init_def font_single_def gsub_single_def single_emits_def)
  then have 4: "GSUB (font (init font_single)) = None \<or>
         (\<exists>table. GSUB (font (init font_single)) = Some table \<and>
            (LookupList table = None \<or> LookupList table = Some [] \<or>
             (\<exists>lookups. LookupList table = Some lookups \<and>
                (\<forall>lk \<in> set lookups. \<not> lookup_emits lk ''Z''))))"
    by blast
  from unreachable_no_result [OF 1 2, of 0 "[]" False False "[]"
      "[([], [65]), ([], [8490]), ([], [32, 32, 769])]"] ev
  have a: "input_from_name (Suc 0) (init font_plain) ''x'' [] False = Inr None" and
    b: "snd (all_inputs (Suc 0)
         (init font_plain\<lparr>font := (font (init font_plain))\<lparr>getGlyphOrder :=
            removeAll ''x'' (getGlyphOrder (font (init font_plain)))\<rparr>\<rparr>) False) =
     Inr [([], [65]), ([], [8490]), ([], [32, 32, 769])]"
    by blast+
  from unreachable_no_result [OF 3 4, of 0 "[]" False]
  have c: "input_from_name (Suc 0) (init font_single) ''Z'' [] False = Inr None"
    by blast
  from 1 g a ev b 3 c show ?thesis by blast
qed

end
